theory Spec2Isabelle
  imports Main
begin

section \<open>burp.c: the category catalog\<close>

text \<open>
  Conventions of the embedding. A C string (\<open>char *\<close>) is the \<open>string\<close> of the bytes before
  its terminating NUL; a pointer that may be \<open>NULL\<close> is a \<open>string option\<close>. C \<open>int\<close> values
  (return codes, \<open>errno\<close> values) are \<open>int\<close>: the program only compares and negates them.
  Functions of the C library are written out as the library documents them.
\<close>

text \<open>\<open>struct category_t\<close>. The field \<open>id\<close> is \<open>NULL\<close> in the search key built by
  \<open>category_validate\<close>, so it is optional. (The fields carry the prefix \<open>cat_\<close>: \<open>id\<close> is
  HOL's identity function.)\<close>

record category_t =
  cat_name :: string
  cat_id :: "string option"

text \<open>The table \<open>categories\<close>, lines 19 to 39.\<close>

definition categories :: "category_t list" where
  "categories =
    [\<lparr>cat_name = ''daemons'', cat_id = Some ''2''\<rparr>,
     \<lparr>cat_name = ''devel'', cat_id = Some ''3''\<rparr>,
     \<lparr>cat_name = ''editors'', cat_id = Some ''4''\<rparr>,
     \<lparr>cat_name = ''emulators'', cat_id = Some ''5''\<rparr>,
     \<lparr>cat_name = ''fonts'', cat_id = Some ''20''\<rparr>,
     \<lparr>cat_name = ''games'', cat_id = Some ''6''\<rparr>,
     \<lparr>cat_name = ''gnome'', cat_id = Some ''7''\<rparr>,
     \<lparr>cat_name = ''i18n'', cat_id = Some ''8''\<rparr>,
     \<lparr>cat_name = ''kde'', cat_id = Some ''9''\<rparr>,
     \<lparr>cat_name = ''kernels'', cat_id = Some ''19''\<rparr>,
     \<lparr>cat_name = ''lib'', cat_id = Some ''10''\<rparr>,
     \<lparr>cat_name = ''modules'', cat_id = Some ''11''\<rparr>,
     \<lparr>cat_name = ''multimedia'', cat_id = Some ''12''\<rparr>,
     \<lparr>cat_name = ''network'', cat_id = Some ''13''\<rparr>,
     \<lparr>cat_name = ''office'', cat_id = Some ''14''\<rparr>,
     \<lparr>cat_name = ''science'', cat_id = Some ''15''\<rparr>,
     \<lparr>cat_name = ''system'', cat_id = Some ''16''\<rparr>,
     \<lparr>cat_name = ''x11'', cat_id = Some ''17''\<rparr>,
     \<lparr>cat_name = ''xfce'', cat_id = Some ''18''\<rparr>]"

text \<open>\<open>strcmp\<close> of the C library: the strings are compared byte by byte as unsigned chars,
  and a string that ends first is the smaller one. The standard fixes only the sign of the
  result, which is all \<open>bsearch\<close> reads; the model returns -1, 0 or 1.\<close>

fun strcmp :: "string \<Rightarrow> string \<Rightarrow> int" where
  "strcmp [] [] = 0"
| "strcmp [] (b # bs) = - 1"
| "strcmp (a # as) [] = 1"
| "strcmp (a # as) (b # bs) =
     (if a = b then strcmp as bs
      else if (of_char a :: nat) < of_char b then - 1 else 1)"

text \<open>\<open>category_compare\<close>, lines 48 to 52.\<close>

definition category_compare :: "category_t \<Rightarrow> category_t \<Rightarrow> int" where
  "category_compare left right = strcmp (cat_name left) (cat_name right)"

text \<open>\<open>bsearch\<close> of the C library over the array \<open>base\<close>: the loop over the half-open
  interval from \<open>l\<close> to \<open>u\<close>, probing the middle element. It starts from 0 and the number of
  elements.\<close>

function bsearch_loop :: "('a \<Rightarrow> 'a \<Rightarrow> int) \<Rightarrow> 'a \<Rightarrow> 'a list \<Rightarrow> nat \<Rightarrow> nat \<Rightarrow> 'a option" where
  "bsearch_loop compar key base l u =
     (if l < u then
        (let idx = (l + u) div 2;
             comparison = compar key (base ! idx)
         in if comparison < 0 then bsearch_loop compar key base l idx
            else if comparison > 0 then bsearch_loop compar key base (idx + 1) u
            else Some (base ! idx))
      else None)"
  by pat_completeness auto
termination
  by (relation "measure (\<lambda>(compar, key, base, l, u). u - l)") auto

text \<open>Modelled from the spec: the macro \<open>ARRAYSIZE\<close> of util.h, which is not among the
  sources; it is the number of elements of the array.\<close>

definition ARRAYSIZE :: "'a list \<Rightarrow> nat" where
  "ARRAYSIZE xs = length xs"

definition bsearch :: "'a \<Rightarrow> 'a list \<Rightarrow> nat \<Rightarrow> ('a \<Rightarrow> 'a \<Rightarrow> int) \<Rightarrow> 'a option" where
  "bsearch key base nmemb compar = bsearch_loop compar key base 0 nmemb"

text \<open>\<open>category_validate\<close>, lines 54 to 62: the id of the entry found, or \<open>NULL\<close>.\<close>

definition category_validate :: "string \<Rightarrow> string option" where
  "category_validate cat =
     (let key = \<lparr>cat_name = cat, cat_id = None\<rparr>;
          res = bsearch key categories (ARRAYSIZE categories) category_compare
      in case res of Some e \<Rightarrow> cat_id e | None \<Rightarrow> None)"

text \<open>What the program does to the outside, in order (see the next section).\<close>

datatype event =
    Stdout string
  | Stderr string
  | Aur_new string bool int
  | Aur_set_username string
  | Aur_set_password string
  | Aur_set_cookies string
  | Aur_set_persist_cookies bool
  | Aur_login bool int
  | Aur_upload string "string option" int "string option"
  | Aur_free

text \<open>\<open>usage_categories\<close>, lines 196 to 200: one \<open>fprintf\<close> to the error stream for the
  heading and one per index of the table.\<close>

definition usage_categories :: "event list" where
  "usage_categories =
     Stderr ''Valid categories:\<newline>'' #
     map (\<lambda>i. Stderr (CHR 0x09 # cat_name (categories ! i) @ ''\<newline>''))
       [0 ..< ARRAYSIZE categories]"

section \<open>The world outside the program\<close>

text \<open>
  What the program prints and what it asks of the AUR client (aur.h, not among the sources)
  is recorded, in order, as a list of \<open>event\<close>s: \<open>Stdout\<close> and \<open>Stderr\<close> are the texts
  written, the other events are the calls of the client, with their arguments and, for
  \<open>aur_new\<close>, \<open>aur_login\<close> and \<open>aur_upload\<close>, the value returned (for \<open>aur_upload\<close> also the
  error text it may hand back).

  The environment \<open>env\<close> gathers everything the program reads from outside: environment
  variables, the file system, the allocator, the C library's \<open>wordexp\<close> and \<open>strerror\<close>, the
  version string \<open>BURP_VERSION\<close> given at build time, and the AUR client. The client keeps
  a session, so what \<open>aur_login\<close> and \<open>aur_upload\<close> return may depend on everything that
  happened before: they take the events so far.
\<close>

record env =
  getenv :: "string \<Rightarrow> string option"
  alloc_ok :: "string \<Rightarrow> bool"
  fopen :: "string \<Rightarrow> int + string"
  wordexp :: "string \<Rightarrow> int \<times> string list"
  strerror :: "int \<Rightarrow> string"
  BURP_VERSION :: string
  aur_new :: "string \<Rightarrow> bool \<Rightarrow> int"
  aur_login :: "event list \<Rightarrow> bool \<Rightarrow> int"
  aur_upload :: "event list \<Rightarrow> string \<Rightarrow> string option \<Rightarrow> int \<times> string option"

text \<open>\<open>alloc_ok e s\<close>: an allocation of a copy of \<open>s\<close> succeeds. \<open>fopen e path\<close>: the \<open>errno\<close>
  of the failure, or the bytes of the file. \<open>wordexp e s\<close>: the return code and the words
  \<open>we_wordv\<close>.\<close>

text \<open>Values of errno.h and stdlib.h (Linux), and \<open>BUFSIZ\<close> of stdio.h (glibc).\<close>

definition ENOENT :: int where "ENOENT = 2"
definition EACCES :: int where "EACCES = 13"
definition EINVAL :: int where "EINVAL = 22"
definition EBADR :: int where "EBADR = 53"
definition ENOKEY :: int where "ENOKEY = 126"
definition EKEYEXPIRED :: int where "EKEYEXPIRED = 127"
definition EKEYREJECTED :: int where "EKEYREJECTED = 129"
definition EXIT_SUCCESS :: int where "EXIT_SUCCESS = 0"
definition EXIT_FAILURE :: int where "EXIT_FAILURE = 1"
definition BUFSIZ :: nat where "BUFSIZ = 8192"

text \<open>Passing \<open>NULL\<close> where the C library reads a string (\<open>strdup\<close>, \<open>wordexp\<close>) is undefined
  behaviour; the model stops there with a fault.\<close>

datatype fault = Null_dereference

section \<open>The global parameters\<close>

text \<open>The static variables \<open>arg_domain\<close> to \<open>arg_persist_cookies\<close>, lines 41 to 46, with
  their initial values.\<close>

record args =
  arg_domain :: string
  arg_username :: "string option"
  arg_password :: "string option"
  arg_cookiefile :: "string option"
  arg_category :: "string option"
  arg_persist_cookies :: bool

definition initial_args :: args where
  "initial_args =
     \<lparr>arg_domain = ''aur.archlinux.org'', arg_username = None, arg_password = None,
      arg_cookiefile = None, arg_category = Some ''1'', arg_persist_cookies = False\<rparr>"

section \<open>The configuration file\<close>

text \<open>\<open>find_config_file\<close>, lines 64 to 86. \<open>asprintf\<close> allocates the path it builds.\<close>

definition find_config_file :: "env \<Rightarrow> string option \<times> event list" where
  "find_config_file e =
     (case getenv e ''XDG_CONFIG_HOME'' of
        Some var \<Rightarrow>
          (let out = var @ ''/burp/burp.conf''
           in if \<not> alloc_ok e out
              then (None, [Stderr ''error: failed to allocate memory\<newline>''])
              else (Some out, []))
      | None \<Rightarrow>
          (case getenv e ''HOME'' of
             Some var \<Rightarrow>
               (let out = var @ ''/.config/burp/burp.conf''
                in if \<not> alloc_ok e out
                   then (None, [Stderr ''error: failed to allocate memory\<newline>''])
                   else (Some out, []))
           | None \<Rightarrow> (None, [])))"

text \<open>\<open>strdup\<close> of the C library: a copy of the string, or \<open>NULL\<close> when the allocation
  fails; the argument must be a string.\<close>

definition strdup :: "env \<Rightarrow> string option \<Rightarrow> fault + string option" where
  "strdup e s =
     (case s of
        None \<Rightarrow> Inl Null_dereference
      | Some v \<Rightarrow> Inr (if alloc_ok e v then Some v else None))"

text \<open>\<open>shell_expand\<close>, lines 89 to 102. \<open>we_wordv\<close> ends with a \<open>NULL\<close> entry, so its first
  entry is \<open>NULL\<close> when \<open>wordexp\<close> produced no word.\<close>

definition shell_expand :: "env \<Rightarrow> string option \<Rightarrow> fault + string option" where
  "shell_expand e inp =
     (case inp of
        None \<Rightarrow> Inl Null_dereference
      | Some s \<Rightarrow>
          (let (rc, we_wordv) = wordexp e s
           in if rc < 0 then Inr None
              else strdup e (case we_wordv of [] \<Rightarrow> None | w # _ \<Rightarrow> Some w)))"

text \<open>\<open>isspace\<close> of ctype.h in the C locale (the program never calls \<open>setlocale\<close>): space,
  and the control characters from tab (9) to carriage return (13).\<close>

definition isspace :: "char \<Rightarrow> bool" where
  "isspace c = (c = CHR '' '' \<or> (9 \<le> (of_char c :: nat) \<and> (of_char c :: nat) \<le> 13))"

text \<open>\<open>strtrim\<close>, lines 104 to 128. It rewrites the buffer in place and returns the new
  length; the model returns the new content with it. \<open>strtrim_buf\<close> is the body after the
  check for \<open>NULL\<close>: an empty string is left alone, leading whitespace is skipped and the
  rest moved to the front, a string that is then empty is left so, and otherwise the
  terminator is written after the last character that is not whitespace.\<close>

definition strtrim_buf :: "string \<Rightarrow> string \<times> nat" where
  "strtrim_buf str =
     (if str = [] then (str, 0)
      else
        (let left = dropWhile isspace str
         in if left = [] then (left, 0)
            else (let trimmed = rev (dropWhile isspace (rev left))
                  in (trimmed, length trimmed))))"

fun strtrim :: "string option \<Rightarrow> string option \<times> nat" where
  "strtrim None = (None, 0)"
| "strtrim (Some str) = (Some (fst (strtrim_buf str)), snd (strtrim_buf str))"

text \<open>\<open>strsep\<close> of the C library: the token before the first delimiter, which is
  overwritten by a terminator, and the pointer behind it; without a delimiter the whole
  string is the token and the pointer becomes \<open>NULL\<close>.\<close>

definition strsep :: "string \<Rightarrow> string \<Rightarrow> string \<times> string option" where
  "strsep stringp delim =
     (case dropWhile (\<lambda>c. c \<notin> set delim) stringp of
        [] \<Rightarrow> (stringp, None)
      | d # rest \<Rightarrow> (takeWhile (\<lambda>c. c \<notin> set delim) stringp, Some rest))"

text \<open>Modelled from the spec: the macro \<open>streq\<close> of util.h, which is not among the sources;
  keys are recognised by exact match.\<close>

definition streq :: "string \<Rightarrow> string \<Rightarrow> bool" where
  "streq a b = (strcmp a b = 0)"

text \<open>The key and the value of a line of \<open>read_config_file\<close>, lines 165 to 168: \<open>strsep\<close>
  cuts the line at the first \<open>=\<close>, and both parts are trimmed. Without a \<open>=\<close> the value is
  \<open>NULL\<close>, which \<open>strtrim\<close> leaves alone.\<close>

definition key_value :: "string \<Rightarrow> string \<times> string option" where
  "key_value line =
     (let (key, val) = strsep line ''=''
      in (fst (strtrim_buf key), fst (strtrim val)))"

text \<open>The body of the loop of \<open>read_config_file\<close>, lines 159 to 190, for one line read by
  \<open>fgets\<close>: the new parameters and what was printed, or a fault. (\<open>lineno\<close> is counted and
  never read.)\<close>

definition config_line :: "env \<Rightarrow> string \<Rightarrow> args \<Rightarrow> fault + args \<times> event list" where
  "config_line e buf a =
     (let (line, len) = strtrim_buf buf
      in if len = 0 \<or> take 1 line = ''#'' then Inr (a, [])
         else
           (let (key, val) = key_value line
            in if streq key ''User'' then
                 (case strdup e val of
                    Inl f \<Rightarrow> Inl f
                  | Inr None \<Rightarrow> Inr (a, [Stderr ''error: failed to allocate memory\<newline>''])
                  | Inr (Some v) \<Rightarrow> Inr (a\<lparr>arg_username := Some v\<rparr>, []))
               else if streq key ''Password'' then
                 (case strdup e val of
                    Inl f \<Rightarrow> Inl f
                  | Inr None \<Rightarrow> Inr (a, [Stderr ''error: failed to allocate memory\<newline>''])
                  | Inr (Some v) \<Rightarrow> Inr (a\<lparr>arg_password := Some v\<rparr>, []))
               else if streq key ''Cookies'' then
                 (case shell_expand e val of
                    Inl f \<Rightarrow> Inl f
                  | Inr None \<Rightarrow> Inr (a, [Stderr ''error: failed to allocate memory\<newline>''])
                  | Inr (Some v) \<Rightarrow> Inr (a\<lparr>arg_cookiefile := Some v\<rparr>, []))
               else if streq key ''Persist'' then Inr (a\<lparr>arg_persist_cookies := True\<rparr>, [])
               else Inr (a, [])))"

text \<open>\<open>fgets\<close> of the C library on the bytes not yet read: at most \<open>n - 1\<close> bytes, up to
  and with the first newline; \<open>NULL\<close> at the end of the file. The buffer is then read as a
  C string, which ends at its first NUL byte. The result is the line and the bytes left.\<close>

fun fgets_chunk :: "nat \<Rightarrow> string \<Rightarrow> string" where
  "fgets_chunk n [] = []"
| "fgets_chunk n (c # cs) =
     (if n = 0 then [] else if c = CHR 0x0A then [c] else c # fgets_chunk (n - 1) cs)"

definition fgets :: "nat \<Rightarrow> string \<Rightarrow> (string \<times> string) option" where
  "fgets n fp =
     (if fp = [] then None
      else (let chunk = fgets_chunk (n - 1) fp
            in Some (takeWhile (\<lambda>c. c \<noteq> CHR 0x00) chunk, drop (length chunk) fp)))"

text \<open>The loop of \<open>read_config_file\<close>, line 155, over the bytes of the open file.\<close>

function read_lines :: "env \<Rightarrow> string \<Rightarrow> args \<Rightarrow> event list \<Rightarrow> fault + args \<times> event list" where
  "read_lines e fp a out =
     (case fgets BUFSIZ fp of
        None \<Rightarrow> Inr (a, out)
      | Some (line, fp') \<Rightarrow>
          (case config_line e line a of
             Inl f \<Rightarrow> Inl f
           | Inr (a', out') \<Rightarrow> read_lines e fp' a' (out @ out')))"
  by pat_completeness auto
termination
proof (relation "measure (\<lambda>(e, fp, a, out). length fp)")
  show "wf (measure (\<lambda>(e, fp, a, out). length fp))" by simp
next
  fix e :: env and fp :: string and a :: args and out :: "event list"
    and x2 :: "string \<times> string" and line fp' :: string
    and x2a :: "args \<times> event list" and a' :: args and out' :: "event list"
  assume "fgets BUFSIZ fp = Some x2" and "(line, fp') = x2"
  then have fp: "fp \<noteq> []" and fp': "fp' = drop (length (fgets_chunk (BUFSIZ - 1) fp)) fp"
    by (auto simp: fgets_def Let_def split: if_splits)
  from fp have "fgets_chunk (BUFSIZ - 1) fp \<noteq> []"
    by (cases fp) (auto simp: BUFSIZ_def)
  with fp fp' have "length fp' < length fp" by simp
  then show "((e, fp', a', out @ out'), (e, fp, a, out)) \<in> measure (\<lambda>(e, fp, a, out). length fp)"
    by simp
qed

text \<open>\<open>read_config_file\<close>, lines 130 to 194: the return code, the parameters and what was
  printed, or a fault.\<close>

definition read_config_file :: "env \<Rightarrow> args \<Rightarrow> fault + int \<times> args \<times> event list" where
  "read_config_file e a =
     (case find_config_file e of
        (None, out) \<Rightarrow>
          Inr (0, a, out @
            [Stderr ''warning: unable to determine location of config file. Skipping.\<newline>''])
      | (Some config_path, out) \<Rightarrow>
          (case fopen e config_path of
             Inl errno \<Rightarrow>
               if errno \<noteq> ENOENT
               then Inr (- errno, a, out @
                      [Stderr (''error: failed to open '' @ config_path @ '': '' @
                               strerror e errno @ ''\<newline>'')])
               else Inr (0, a, out)
           | Inr fp \<Rightarrow>
               (case read_lines e fp a out of
                  Inl f \<Rightarrow> Inl f
                | Inr (a', out') \<Rightarrow> Inr (0, a', out'))))"

section \<open>The command line\<close>

text \<open>\<open>usage\<close>, lines 202 to 225: three calls of \<open>fprintf\<close>.\<close>

definition usage :: "env \<Rightarrow> event list" where
  "usage e =
     [Stderr (''burp '' @ BURP_VERSION e @ ''\<newline>'' @
        ''Usage: burp [options] targets...\<newline>\<newline>'' @
        '' Options:\<newline>'' @
        ''  -h, --help                Shows this help message.\<newline>'' @
        ''  -u, --user                AUR login username.\<newline>'' @
        ''  -p, --password            AUR login password.\<newline>''),
      Stderr (
        ''  -c CAT, --category=CAT    Assign the uploaded package with category CAT.\<newline>'' @
        ''                              This will default to the current category\<newline>'' @
        ''                              for pre-existing packages and '' @ [CHR 0x27] @ ''None'' @
          [CHR 0x27] @ '' for new\<newline>'' @
        ''                              packages. -c help will give a list of valid\<newline>'' @
        ''                              categories.\<newline>''),
      Stderr (
        ''  -C FILE, --cookies=FILE   Use FILE to store cookies rather than the default\<newline>'' @
        ''                              temporary file. Useful with the -k option.\<newline>'' @
        ''  -k, --keep-cookies        Cookies will be persistent and reused for logins.\<newline>'' @
        ''                              If you specify this option, you must also provide\<newline>'' @
        ''                              a path to a cookie file.\<newline>'' @
        ''  burp also honors a config file. See burp(1) for more information.\<newline>\<newline>'')]"

text \<open>
  The command line reaches the program through \<open>getopt_long\<close> of the C library, which is
  not modelled: \<open>getopt_results\<close> are the values its successive calls return, each with the
  \<open>optarg\<close> it sets, up to the negative value that ends the options (the end of the list
  stands for it too); \<open>operands n\<close> are the arguments from \<open>optind\<close> on, after \<open>n\<close> calls.
\<close>

record cmdline =
  getopt_results :: "(int \<times> string) list"
  operands :: "nat \<Rightarrow> string list"

text \<open>\<open>parseargs\<close>, lines 227 to 278: the loop over the options, with the number of calls
  of \<open>getopt_long\<close> made so far. The result is the return code, the parameters, what was
  printed and the number of calls made.\<close>

fun parseargs_loop ::
  "env \<Rightarrow> (int \<times> string) list \<Rightarrow> args \<Rightarrow> nat \<Rightarrow> int \<times> args \<times> event list \<times> nat" where
  "parseargs_loop e [] a n = (0, a, [], Suc n)"
| "parseargs_loop e ((opt, optarg) # rest) a n =
     (if opt < 0 then (0, a, [], Suc n)
      else if opt = of_char CHR ''C'' then
        parseargs_loop e rest (a\<lparr>arg_cookiefile := Some optarg\<rparr>) (Suc n)
      else if opt = of_char CHR ''c'' then
        (let a' = a\<lparr>arg_category := category_validate optarg\<rparr>
         in if arg_category a' = None
            then (- EINVAL, a',
                  Stderr (''error: invalid category '' @ optarg @ ''\<newline>'') # usage_categories,
                  Suc n)
            else parseargs_loop e rest a' (Suc n))
      else if opt = of_char CHR ''h'' then (0, a, usage e, Suc n)
      else if opt = of_char CHR ''k'' then
        parseargs_loop e rest (a\<lparr>arg_persist_cookies := True\<rparr>) (Suc n)
      else if opt = of_char CHR ''p'' then
        parseargs_loop e rest (a\<lparr>arg_password := Some optarg\<rparr>) (Suc n)
      else if opt = of_char CHR ''u'' then
        parseargs_loop e rest (a\<lparr>arg_username := Some optarg\<rparr>) (Suc n)
      else if opt = 128 then
        parseargs_loop e rest (a\<lparr>arg_domain := optarg\<rparr>) (Suc n)
      else (- EINVAL, a, [], Suc n))"

definition parseargs :: "env \<Rightarrow> (int \<times> string) list \<Rightarrow> args \<Rightarrow> int \<times> args \<times> event list \<times> nat" where
  "parseargs e opts a = parseargs_loop e opts a 0"

section \<open>Login and upload\<close>

text \<open>\<open>make_login_error\<close>, lines 280 to 300: the value returned and the line printed.\<close>

definition make_login_error :: "env \<Rightarrow> int \<Rightarrow> int \<times> event list" where
  "make_login_error e err =
     (EXIT_FAILURE,
      [Stderr
        (if - err = EBADR then ''error: insufficient credentials provided to login.\<newline>''
         else if - err = EACCES then ''error: bad username or password.\<newline>''
         else if - err = EKEYEXPIRED then ''error: required login cookie has expired.\<newline>''
         else if - err = EKEYREJECTED then ''error: login cookie not accepted.\<newline>''
         else ''error: failed to login to AUR: '' @ strerror e (- err) @ ''\<newline>'')])"

text \<open>The \<open>switch\<close> of \<open>main\<close>, lines 332 to 341, entered with the negative result \<open>r\<close> of the
  first \<open>aur_login\<close>: the new value of \<open>r\<close> and the events so far.\<close>

definition login_fallback :: "env \<Rightarrow> int \<Rightarrow> event list \<Rightarrow> int \<times> event list" where
  "login_fallback e r tr =
     (if r = - EKEYEXPIRED then
        (let tr1 = tr @ [Stderr ''warning: Your cookie has expired -- using password login\<newline>''];
             r' = aur_login e tr1 True
         in (r', tr1 @ [Aur_login True r']))
      else if r = - ENOKEY then
        (let r' = aur_login e tr True
         in (r', tr @ [Aur_login True r']))
      else (r, tr))"

text \<open>The loop of \<open>main\<close> over the targets, lines 347 to 358, with the variable \<open>r\<close> and the
  events so far.\<close>

fun upload_loop :: "env \<Rightarrow> string option \<Rightarrow> string list \<Rightarrow> int \<Rightarrow> event list \<Rightarrow> int \<times> event list" where
  "upload_loop e category [] r tr = (r, tr)"
| "upload_loop e category (target # targets) r tr =
     (let (k, error) = aur_upload e tr target category;
          tr1 = tr @ [Aur_upload target category k error]
      in if k = 0 then
           upload_loop e category targets r
             (tr1 @ [Stdout (''success: uploaded '' @ target @ ''\<newline>'')])
         else
           upload_loop e category targets (if r = 0 then k else r)
             (tr1 @ [Stderr (''failed to upload '' @ target @ '': '' @
                       (case error of Some m \<Rightarrow> m | None \<Rightarrow> strerror e (- k)) @ ''\<newline>'')]))"

text \<open>The end of \<open>main\<close>, lines 347 to 362: the uploads, \<open>aur_free\<close> and the exit status.\<close>

definition main_upload :: "env \<Rightarrow> string option \<Rightarrow> string list \<Rightarrow> int \<Rightarrow> event list \<Rightarrow> int \<times> event list" where
  "main_upload e category targets r tr =
     (let (r', tr') = upload_loop e category targets r tr
      in (if r' = 0 then EXIT_SUCCESS else EXIT_FAILURE, tr' @ [Aur_free]))"

text \<open>\<open>main\<close> from the first login on, lines 330 to 362.\<close>

definition main_session :: "env \<Rightarrow> string option \<Rightarrow> string list \<Rightarrow> event list \<Rightarrow> int \<times> event list" where
  "main_session e category targets tr =
     (let r = aur_login e tr False;
          tr1 = tr @ [Aur_login False r]
      in if r < 0 then
           (let (r', tr2) = login_fallback e r tr1
            in if r' < 0 then
                 (let (status, out) = make_login_error e r' in (status, tr2 @ out))
               else main_upload e category targets r' tr2)
         else main_upload e category targets r tr1)"

text \<open>The calls of the setters, lines 321 to 328.\<close>

definition main_setters :: "args \<Rightarrow> event list" where
  "main_setters a =
     (case arg_username a of Some u \<Rightarrow> [Aur_set_username u] | None \<Rightarrow> []) @
     (case arg_password a of Some p \<Rightarrow> [Aur_set_password p] | None \<Rightarrow> []) @
     (case arg_cookiefile a of Some c \<Rightarrow> [Aur_set_cookies c] | None \<Rightarrow> []) @
     (if arg_persist_cookies a then [Aur_set_persist_cookies (arg_persist_cookies a)] else [])"

text \<open>\<open>main\<close>, lines 302 to 363: the exit status and all events, or a fault.\<close>

definition main :: "env \<Rightarrow> cmdline \<Rightarrow> fault + int \<times> event list" where
  "main e cmd =
     (case read_config_file e initial_args of
        Inl f \<Rightarrow> Inl f
      | Inr (rc, a1, out1) \<Rightarrow>
          if rc < 0 then Inr (EXIT_FAILURE, out1)
          else
            (let (rc2, a2, out2, ncalls) = parseargs e (getopt_results cmd) a1
             in if rc2 < 0 then Inr (EXIT_FAILURE, out1 @ out2)
                else
                  (let targets = operands cmd ncalls;
                       r = aur_new e (arg_domain a2) True;
                       tr = out1 @ out2 @ [Aur_new (arg_domain a2) True r]
                   in if r < 0 then
                        Inr (EXIT_FAILURE, tr @
                          [Stderr (''error: failed to create AUR client: '' @
                                   strerror e (- r) @ ''\<newline>'')])
                      else
                        Inr (main_session e (arg_category a2) targets (tr @ main_setters a2)))))"

section \<open>Reference notions used in the statements\<close>

text \<open>Lookup by exact match of the name, entry by entry from the top of the table: what
  the binary search of \<open>category_validate\<close> is meant to compute.\<close>

definition catalog_lookup :: "string \<Rightarrow> string option" where
  "catalog_lookup cat =
     (case find (\<lambda>c. cat_name c = cat) categories of Some c \<Rightarrow> cat_id c | None \<Rightarrow> None)"

text \<open>The calls of \<open>aur_login\<close> and of \<open>aur_upload\<close> among the events, in order, with what
  they returned.\<close>

fun logins :: "event list \<Rightarrow> (bool \<times> int) list" where
  "logins [] = []"
| "logins (Aur_login b r # tr) = (b, r) # logins tr"
| "logins (ev # tr) = logins tr"

fun uploads :: "event list \<Rightarrow> (string \<times> string option \<times> int) list" where
  "uploads [] = []"
| "uploads (Aur_upload t c k err # tr) = (t, c, k) # uploads tr"
| "uploads (ev # tr) = uploads tr"

text \<open>The event is a text written to a stream, not a call of the client.\<close>

fun printed :: "event \<Rightarrow> bool" where
  "printed (Stdout s) = True"
| "printed (Stderr s) = True"
| "printed ev = False"

text \<open>The events are calls of \<open>aur_upload\<close>, each followed at once by the line that
  reports its outcome (lines 350 to 354), and nothing else.\<close>

fun reported :: "env \<Rightarrow> event list \<Rightarrow> bool" where
  "reported e [] = True"
| "reported e (Aur_upload t c k err # ev # tr) =
     (ev = (if k = 0 then Stdout (''success: uploaded '' @ t @ ''\<newline>'')
            else Stderr (''failed to upload '' @ t @ '': '' @
                   (case err of Some m \<Rightarrow> m | None \<Rightarrow> strerror e (- k)) @ ''\<newline>''))
      \<and> reported e tr)"
| "reported e tr = False"

text \<open>The first code that is not 0, or 0 when there is none.\<close>

definition first_failure :: "int list \<Rightarrow> int" where
  "first_failure ks = (case filter (\<lambda>k. k \<noteq> 0) ks of [] \<Rightarrow> 0 | k # _ \<Rightarrow> k)"

text \<open>The options that \<open>parseargs\<close> reads: those that \<open>getopt_long\<close> returned before its
  first negative value and before the first help flag; and the last argument given for an
  option among them.\<close>

definition given_opts :: "(int \<times> string) list \<Rightarrow> (int \<times> string) list" where
  "given_opts opts =
     takeWhile (\<lambda>(opt, optarg). 0 \<le> opt \<and> opt \<noteq> of_char CHR ''h'') opts"

definition cli_value :: "int \<Rightarrow> (int \<times> string) list \<Rightarrow> string option" where
  "cli_value opt opts = map_of (rev (given_opts opts)) opt"

text \<open>A string is trimmed: empty, or with neither its first nor its last character
  whitespace.\<close>

definition trimmed :: "string \<Rightarrow> bool" where
  "trimmed s = (s = [] \<or> (\<not> isspace (hd s) \<and> \<not> isspace (last s)))"

text \<open>A line of the file, without its newline, fits the buffer of \<open>read_config_file\<close>
  when \<open>fgets\<close> delivers it whole, its newline included, in one call.\<close>

definition fits_buffer :: "string \<Rightarrow> bool" where
  "fits_buffer l = (length l < BUFSIZ - 1 \<and> CHR 0x0A \<notin> set l)"

text \<open>A sample environment, on which the statements below are run: the home directory is
  \<open>/home/u\<close>, opening the configuration file there gives \<open>conf\<close> (its bytes, or the \<open>errno\<close> of
  the failure), allocations succeed, \<open>wordexp\<close> returns its argument as the one word, the first login
  returns \<open>login1\<close> and the login with credentials \<open>login2\<close>, and every upload succeeds but
  that of \<open>bad.tar.gz\<close>, which fails with \<open>-EACCES\<close> and no message.\<close>

definition sample_env :: "int + string \<Rightarrow> int \<Rightarrow> int \<Rightarrow> env" where
  "sample_env conf login1 login2 =
     \<lparr>getenv = (\<lambda>v. if v = ''HOME'' then Some ''/home/u'' else None),
      alloc_ok = (\<lambda>s. True),
      fopen = (\<lambda>path. if path = ''/home/u/.config/burp/burp.conf'' then conf else Inl ENOENT),
      wordexp = (\<lambda>s. (0, [s])),
      strerror = (\<lambda>n. ''errno''),
      BURP_VERSION = ''2'',
      aur_new = (\<lambda>domain secure. 0),
      aur_login = (\<lambda>tr creds. if creds then login2 else login1),
      aur_upload = (\<lambda>tr target category.
        if target = ''bad.tar.gz'' then (- EACCES, None) else (0, None))\<rparr>"

section \<open>The catalog: order and lookup\<close>

declare bsearch_loop.simps [simp del]

lemma strcmp_eq0_iff: "strcmp a b = 0 \<longleftrightarrow> a = b"
  by (induction a b rule: strcmp.induct) auto

lemma strcmp_swap: "strcmp b a = - strcmp a b"
  by (induction a b rule: strcmp.induct) (auto dest: of_char_eq_iff [THEN iffD1])

lemma bsearch_loop_complete:
  "sorted_wrt (\<lambda>x y. category_compare x y < 0) base \<Longrightarrow> l \<le> i \<Longrightarrow> i < u \<Longrightarrow>
   u \<le> length base \<Longrightarrow> cat_name (base ! i) = cat_name key \<Longrightarrow>
   bsearch_loop category_compare key base l u = Some (base ! i)"
proof (induction category_compare key base l u rule: bsearch_loop.induct)
  case (1 key base l u)
  define idx where "idx = (l + u) div 2"
  from "1.prems" have lu: "l < u" by simp
  have idx: "idx < u" "l \<le> idx" using lu by (auto simp: idx_def)
  have cmp: "category_compare key (base ! idx) = category_compare (base ! i) (base ! idx)"
    using "1.prems"(5) by (simp add: category_compare_def)
  consider (lt) "i < idx" | (gt) "idx < i" | (eq) "i = idx" by linarith
  then show ?case
  proof cases
    case lt
    with "1.prems"(1,4) idx have neg: "category_compare key (base ! idx) < 0"
      unfolding cmp by (simp add: sorted_wrt_iff_nth_less)
    have "bsearch_loop category_compare key base l idx = Some (base ! i)"
      using "1.hyps"(1) [OF lu idx_def [symmetric, THEN sym] refl neg "1.prems"(1,2) lt _ "1.prems"(5)]
        idx "1.prems"(4) by simp
    with neg lu show ?thesis
      by (subst bsearch_loop.simps) (simp add: idx_def Let_def)
  next
    case gt
    with "1.prems"(1,3,4) idx have "category_compare (base ! idx) (base ! i) < 0"
      by (simp add: sorted_wrt_iff_nth_less)
    then have pos: "category_compare key (base ! idx) > 0"
      using strcmp_swap [of "cat_name (base ! i)" "cat_name (base ! idx)"] "1.prems"(5)
      by (simp add: category_compare_def)
    then have nneg: "\<not> category_compare key (base ! idx) < 0" by simp
    have "bsearch_loop category_compare key base (idx + 1) u = Some (base ! i)"
      using "1.hyps"(2) [OF lu idx_def [symmetric, THEN sym] refl nneg pos "1.prems"(1) _ "1.prems"(3,4,5)]
        gt by simp
    with pos nneg lu show ?thesis
      by (subst bsearch_loop.simps) (simp add: idx_def Let_def)
  next
    case eq
    then have "category_compare key (base ! idx) = 0"
      unfolding cmp by (simp add: category_compare_def strcmp_eq0_iff)
    with lu eq show ?thesis
      by (subst bsearch_loop.simps) (simp add: idx_def Let_def)
  qed
qed

lemma bsearch_loop_sound:
  "bsearch_loop compar key base l u = Some e \<Longrightarrow> u \<le> length base \<Longrightarrow>
     e \<in> set base \<and> compar key e = 0"
proof (induction compar key base l u rule: bsearch_loop.induct)
  case (1 compar key base l u)
  show ?case
  proof (cases "l < u")
    case False
    with "1.prems" show ?thesis by (simp add: bsearch_loop.simps)
  next
    case True
    define idx where "idx = (l + u) div 2"
    have idx: "idx < u" "l \<le> idx" using True by (auto simp: idx_def)
    consider (lt) "compar key (base ! idx) < 0" | (gt) "compar key (base ! idx) > 0"
      | (eq) "compar key (base ! idx) = 0" by linarith
    then show ?thesis
    proof cases
      case lt
      with True "1.prems" have "bsearch_loop compar key base l idx = Some e"
        by (subst (asm) bsearch_loop.simps) (simp add: idx_def Let_def)
      with "1.IH"(1) [OF True idx_def [symmetric, THEN sym] refl lt] idx "1.prems"(2)
      show ?thesis by simp
    next
      case gt
      with True "1.prems" have "bsearch_loop compar key base (idx + 1) u = Some e"
        by (subst (asm) bsearch_loop.simps) (simp add: idx_def Let_def)
      with "1.IH"(2) [OF True idx_def [symmetric, THEN sym] refl _ gt] gt idx "1.prems"(2)
      show ?thesis by simp
    next
      case eq
      with True "1.prems" have "e = base ! idx"
        by (subst (asm) bsearch_loop.simps) (simp add: idx_def Let_def)
      with eq idx "1.prems"(2) show ?thesis by simp
    qed
  qed
qed

lemma categories_sorted: "sorted_wrt (\<lambda>x y. category_compare x y < 0) categories"
  by (simp add: categories_def category_compare_def)

lemma categories_distinct: "distinct (map cat_name categories)"
  by (simp add: categories_def)

lemma validate_eq_find:
  "category_validate cat = catalog_lookup cat"
proof (cases "find (\<lambda>c. cat_name c = cat) categories")
  case None
  then have no: "\<And>c. c \<in> set categories \<Longrightarrow> cat_name c \<noteq> cat"
    by (auto simp: find_None_iff)
  have "bsearch_loop category_compare \<lparr>cat_name = cat, cat_id = None\<rparr> categories 0 (length categories) = None"
  proof (cases "bsearch_loop category_compare \<lparr>cat_name = cat, cat_id = None\<rparr> categories 0 (length categories)")
    case (Some e)
    from bsearch_loop_sound [OF Some] have "e \<in> set categories" "cat_name e = cat"
      by (auto simp: category_compare_def strcmp_eq0_iff)
    with no show ?thesis by blast
  qed simp
  with None show ?thesis
    by (simp add: category_validate_def bsearch_def ARRAYSIZE_def Let_def catalog_lookup_def)
next
  case (Some c)
  then obtain i where i: "i < length categories" "categories ! i = c" "cat_name c = cat"
    by (auto simp: find_Some_iff)
  have "bsearch_loop category_compare \<lparr>cat_name = cat, cat_id = None\<rparr> categories 0 (length categories)
        = Some (categories ! i)"
    using i by (intro bsearch_loop_complete [OF categories_sorted]) auto
  with Some i show ?thesis
    by (simp add: category_validate_def bsearch_def ARRAYSIZE_def Let_def catalog_lookup_def)
qed

text \<open>
  C9. The table \<open>categories\<close> is strictly ascending by name under \<open>category_compare\<close>, the
  comparison by \<open>strcmp\<close> that the lookup uses (so it is sorted, case-sensitively, and no
  name occurs twice), and therefore the binary search of \<open>category_validate\<close> answers every
  query as the exact-match lookup through the table does.
\<close>

theorem categories_sorted_lookup_well_defined:
  "sorted_wrt (\<lambda>x y. category_compare x y < 0) categories \<and>
   distinct (map cat_name categories) \<and>
   category_validate cat = catalog_lookup cat"
  using categories_sorted categories_distinct validate_eq_find by blast

lemma validate_member:
  assumes "c \<in> set categories"
  shows "category_validate (cat_name c) = cat_id c"
proof -
  from assms obtain i where i: "i < length categories" "categories ! i = c"
    by (auto simp: in_set_conv_nth)
  have "bsearch_loop category_compare \<lparr>cat_name = cat_name c, cat_id = None\<rparr> categories 0 (length categories)
        = Some (categories ! i)"
    using i by (intro bsearch_loop_complete [OF categories_sorted]) auto
  with i show ?thesis
    by (simp add: category_validate_def bsearch_def ARRAYSIZE_def Let_def)
qed

lemma ids_nonempty: "c \<in> set categories \<Longrightarrow> \<exists>i. cat_id c = Some i \<and> i \<noteq> []"
  by (auto simp: categories_def)

lemma validate_nonmember:
  assumes "cat \<notin> cat_name ` set categories"
  shows "category_validate cat = None"
proof -
  from assms have "find (\<lambda>c. cat_name c = cat) categories = None"
    by (auto simp: find_None_iff)
  then show ?thesis by (simp add: validate_eq_find catalog_lookup_def)
qed

lemma usage_categories_eq:
  "usage_categories =
     Stderr ''Valid categories:\<newline>'' # map (\<lambda>c. Stderr (CHR 0x09 # cat_name c @ ''\<newline>'')) categories"
proof -
  have "map (\<lambda>i. Stderr (CHR 0x09 # cat_name (categories ! i) @ ''\<newline>'')) [0 ..< length categories]
      = map (\<lambda>c. Stderr (CHR 0x09 # cat_name c @ ''\<newline>'')) categories"
    by (rule nth_equalityI) auto
  then show ?thesis by (simp add: usage_categories_def ARRAYSIZE_def)
qed

text \<open>
  C8. For every entry of the table, \<open>category_validate\<close> of its name returns the entry's
  id, which is not \<open>NULL\<close> and not empty; for every name that no entry carries it returns
  \<open>NULL\<close>, and \<open>parseargs\<close> then prints the error and \<open>usage_categories\<close> and returns
  \<open>-EINVAL\<close>. The list printed by \<open>usage_categories\<close> is the heading followed by the names of
  the table, in the order of the table, which is not empty.
\<close>

theorem category_validate_catalog:
  "(c \<in> set categories \<longrightarrow>
      category_validate (cat_name c) = cat_id c \<and> (\<exists>i. cat_id c = Some i \<and> i \<noteq> [])) \<and>
   (cat \<notin> cat_name ` set categories \<longrightarrow>
      category_validate cat = None \<and>
      parseargs_loop e ((of_char CHR ''c'', cat) # rest) a n =
        (- EINVAL, a\<lparr>arg_category := None\<rparr>,
         Stderr (''error: invalid category '' @ cat @ ''\<newline>'') # usage_categories, Suc n)) \<and>
   usage_categories =
     Stderr ''Valid categories:\<newline>'' #
     map (\<lambda>c. Stderr (CHR 0x09 # cat_name c @ ''\<newline>'')) categories \<and>
   categories \<noteq> []"
proof (intro conjI impI)
  assume "c \<in> set categories"
  then show "category_validate (cat_name c) = cat_id c" by (rule validate_member)
  from \<open>c \<in> set categories\<close> show "\<exists>i. cat_id c = Some i \<and> i \<noteq> []" by (rule ids_nonempty)
next
  assume "cat \<notin> cat_name ` set categories"
  then show none: "category_validate cat = None" by (rule validate_nonmember)
  then show "parseargs_loop e ((of_char CHR ''c'', cat) # rest) a n =
        (- EINVAL, a\<lparr>arg_category := None\<rparr>,
         Stderr (''error: invalid category '' @ cat @ ''\<newline>'') # usage_categories, Suc n)"
    by (simp add: Let_def)
next
  show "usage_categories =
     Stderr ''Valid categories:\<newline>'' #
     map (\<lambda>c. Stderr (CHR 0x09 # cat_name c @ ''\<newline>'')) categories"
    by (rule usage_categories_eq)
  show "categories \<noteq> []" by (simp add: categories_def)
qed

theorem category_validate_catalog_witness:
  "category_validate ''devel'' = Some ''3'' \<and>
   category_validate ''help'' = None \<and>
   parseargs_loop (sample_env (Inl ENOENT) 0 0) [(of_char CHR ''c'', ''help'')] initial_args 0 =
     (- EINVAL, initial_args\<lparr>arg_category := None\<rparr>,
      Stderr ''error: invalid category help\<newline>'' # usage_categories, 1)"
proof -
  have member: "\<lparr>cat_name = ''devel'', cat_id = Some ''3''\<rparr> \<in> set categories"
    by (simp add: categories_def)
  have other: "''help'' \<notin> cat_name ` set categories"
    by (simp add: categories_def)
  from member other category_validate_catalog
    [of "\<lparr>cat_name = ''devel'', cat_id = Some ''3''\<rparr>" "''help''" "sample_env (Inl ENOENT) 0 0"
        "[]" initial_args 0]
  show ?thesis by (simp del: parseargs_loop.simps)
qed

section \<open>The uploads\<close>

lemma first_failure_Cons:
  "first_failure (k # ks) = (if k = 0 then first_failure ks else k)"
  by (simp add: first_failure_def)

lemma first_failure_zero_iff: "first_failure ks = 0 \<longleftrightarrow> list_all (\<lambda>k. k = 0) ks"
  by (induction ks) (auto simp: first_failure_Cons, simp add: first_failure_def)

lemma upload_loop_events:
  "\<exists>new. upload_loop e category targets r tr =
           (if r = 0 then first_failure (map (\<lambda>(t, c, k). k) (uploads new)) else r, tr @ new) \<and>
         reported e new \<and>
         map (\<lambda>(t, c, k). (t, c)) (uploads new) = map (\<lambda>t. (t, category)) targets"
proof (induction targets arbitrary: r tr)
  case Nil
  have "upload_loop e category [] r tr =
          (if r = 0 then first_failure (map (\<lambda>(t, c, k). k) (uploads [])) else r, tr @ []) \<and>
        reported e [] \<and>
        map (\<lambda>(t, c, k). (t, c)) (uploads []) = map (\<lambda>t. (t, category)) []"
    by (simp add: first_failure_def)
  then show ?case by blast
next
  case (Cons target targets)
  obtain k err where up: "aur_upload e tr target category = (k, err)"
    by (cases "aur_upload e tr target category")
  define call where "call = Aur_upload target category k err"
  define line where "line =
    (if k = 0 then Stdout (''success: uploaded '' @ target @ ''\<newline>'')
     else Stderr (''failed to upload '' @ target @ '': '' @
            (case err of Some m \<Rightarrow> m | None \<Rightarrow> strerror e (- k)) @ ''\<newline>''))"
  define r1 where "r1 = (if k = 0 then r else if r = 0 then k else r)"
  have step: "upload_loop e category (target # targets) r tr =
              upload_loop e category targets r1 (tr @ [call, line])"
    using up by (simp add: call_def line_def r1_def)
  from Cons.IH [of r1 "tr @ [call, line]"] obtain new where
    new: "upload_loop e category targets r1 (tr @ [call, line]) =
            (if r1 = 0 then first_failure (map (\<lambda>(t, c, k). k) (uploads new)) else r1,
             (tr @ [call, line]) @ new)"
      "reported e new"
      "map (\<lambda>(t, c, k). (t, c)) (uploads new) = map (\<lambda>t. (t, category)) targets"
    by blast
  have ups: "uploads (call # line # new) = (target, category, k) # uploads new"
    by (simp add: call_def line_def)
  have rep: "reported e (call # line # new)"
    using new(2) by (simp add: call_def line_def)
  have res: "(if r1 = 0 then first_failure (map (\<lambda>(t, c, k). k) (uploads new)) else r1) =
             (if r = 0 then first_failure (map (\<lambda>(t, c, k). k) (uploads (call # line # new))) else r)"
    unfolding ups by (simp add: r1_def first_failure_Cons)
  have "upload_loop e category (target # targets) r tr =
          (if r = 0 then first_failure (map (\<lambda>(t, c, k). k) (uploads (call # line # new))) else r,
           tr @ (call # line # new)) \<and>
        reported e (call # line # new) \<and>
        map (\<lambda>(t, c, k). (t, c)) (uploads (call # line # new)) =
          map (\<lambda>t. (t, category)) (target # targets)"
    using step new(1,3) rep res ups by simp
  then show ?case by blast
qed

text \<open>
  C1 (as amended). After a login that returned 0, for every list of targets: \<open>aur_upload\<close> is
  called for every target, in the order of the list and with the resolved category,
  whatever the earlier calls returned; each call is followed at once by the line that
  reports its outcome; \<open>aur_free\<close> is the last event. The variable \<open>r\<close> ends as the code of
  the first upload that failed (0 when none did), and the exit status is \<open>EXIT_SUCCESS\<close>
  exactly when every upload returned 0 and \<open>EXIT_FAILURE\<close> otherwise: the status is not
  the failure code itself.
\<close>

theorem main_upload_batch:
  "\<exists>new. main_upload e category targets 0 tr =
           (if first_failure (map (\<lambda>(t, c, k). k) (uploads new)) = 0
            then EXIT_SUCCESS else EXIT_FAILURE,
            tr @ new @ [Aur_free]) \<and>
         upload_loop e category targets 0 tr =
           (first_failure (map (\<lambda>(t, c, k). k) (uploads new)), tr @ new) \<and>
         reported e new \<and>
         map (\<lambda>(t, c, k). (t, c)) (uploads new) = map (\<lambda>t. (t, category)) targets \<and>
         (first_failure (map (\<lambda>(t, c, k). k) (uploads new)) = 0 \<longleftrightarrow>
            list_all (\<lambda>k. k = 0) (map (\<lambda>(t, c, k). k) (uploads new)))"
proof -
  from upload_loop_events [of e category targets 0 tr] obtain new where
    new: "upload_loop e category targets 0 tr =
            (first_failure (map (\<lambda>(t, c, k). k) (uploads new)), tr @ new)"
      "reported e new"
      "map (\<lambda>(t, c, k). (t, c)) (uploads new) = map (\<lambda>t. (t, category)) targets"
    by auto
  have "main_upload e category targets 0 tr =
           (if first_failure (map (\<lambda>(t, c, k). k) (uploads new)) = 0
            then EXIT_SUCCESS else EXIT_FAILURE,
            tr @ new @ [Aur_free])"
    by (simp add: main_upload_def new(1))
  with new first_failure_zero_iff [of "map (\<lambda>(t, c, k). k) (uploads new)"]
  show ?thesis by blast
qed

theorem main_upload_batch_witness:
  "main_upload (sample_env (Inl ENOENT) 0 0) (Some ''1'') [''a'', ''bad.tar.gz'', ''c''] 0 [] =
     (EXIT_FAILURE,
      [Aur_upload ''a'' (Some ''1'') 0 None, Stdout ''success: uploaded a\<newline>'',
       Aur_upload ''bad.tar.gz'' (Some ''1'') (- EACCES) None,
       Stderr ''failed to upload bad.tar.gz: errno\<newline>'',
       Aur_upload ''c'' (Some ''1'') 0 None, Stdout ''success: uploaded c\<newline>'',
       Aur_free]) \<and>
   fst (upload_loop (sample_env (Inl ENOENT) 0 0) (Some ''1'') [''a'', ''bad.tar.gz'', ''c''] 0 [])
     = - EACCES"
proof -
  from main_upload_batch
    [of "sample_env (Inl ENOENT) 0 0" "Some ''1''" "[''a'', ''bad.tar.gz'', ''c'']" "[]"]
  obtain new where
    "main_upload (sample_env (Inl ENOENT) 0 0) (Some ''1'') [''a'', ''bad.tar.gz'', ''c''] 0 [] =
       (if first_failure (map (\<lambda>(t, c, k). k) (uploads new)) = 0
        then EXIT_SUCCESS else EXIT_FAILURE, [] @ new @ [Aur_free])"
    by blast
  then show ?thesis
    by (simp add: main_upload_def sample_env_def EACCES_def EXIT_FAILURE_def EXIT_SUCCESS_def)
qed

text \<open>The second of three targets fails with \<open>-EACCES\<close> (-13): all three are uploaded, and
  the exit status is \<open>EXIT_FAILURE\<close> (1), which is not that code.\<close>

theorem exit_status_not_failure_code:
  "fst (main_upload (sample_env (Inl ENOENT) 0 0) (Some ''1'') [''a'', ''bad.tar.gz'', ''c''] 0 [])
     = EXIT_FAILURE \<and>
   map (\<lambda>(t, c, k). k)
     (uploads (snd (main_upload (sample_env (Inl ENOENT) 0 0) (Some ''1'')
        [''a'', ''bad.tar.gz'', ''c''] 0 []))) = [0, - EACCES, 0] \<and>
   EXIT_FAILURE \<noteq> - EACCES"
  by (simp add: main_upload_def sample_env_def EACCES_def EXIT_FAILURE_def EXIT_SUCCESS_def)

section \<open>The login\<close>

declare read_lines.simps [simp del]

lemma logins_append: "logins (tr @ tr') = logins tr @ logins tr'"
  by (induction tr rule: logins.induct) simp_all

lemma uploads_append: "uploads (tr @ tr') = uploads tr @ uploads tr'"
  by (induction tr rule: uploads.induct) simp_all

lemma printed_no_calls: "list_all printed tr \<Longrightarrow> logins tr = [] \<and> uploads tr = []"
  by (induction tr rule: logins.induct) simp_all

lemma upload_loop_logins:
  "logins (snd (upload_loop e category targets r tr)) = logins tr"
  by (induction targets arbitrary: r tr) (simp_all add: Let_def logins_append split: prod.splits)

lemma main_upload_logins:
  "logins (snd (main_upload e category targets r tr)) = logins tr"
  using upload_loop_logins [of e category targets r tr]
  by (cases "upload_loop e category targets r tr") (simp add: main_upload_def logins_append)

lemma make_login_error_printed: "list_all printed (snd (make_login_error e err))"
  by (simp add: make_login_error_def)

lemma main_upload_extends:
  "\<exists>rest. snd (main_upload e category targets r tr) = tr @ rest"
  using upload_loop_events [of e category targets r tr]
  by (auto simp: main_upload_def)

lemma main_session_logins:
  "logins (snd (main_session e category targets tr)) =
     logins tr @ (False, aur_login e tr False) #
       (if aur_login e tr False = - EKEYEXPIRED then
          [(True, aur_login e
             (tr @ [Aur_login False (aur_login e tr False),
                    Stderr ''warning: Your cookie has expired -- using password login\<newline>''])
             True)]
        else if aur_login e tr False = - ENOKEY then
          [(True, aur_login e (tr @ [Aur_login False (aur_login e tr False)]) True)]
        else [])"
  by (simp add: main_session_def login_fallback_def Let_def main_upload_logins logins_append
        make_login_error_def EKEYEXPIRED_def ENOKEY_def)

text \<open>
  C2. The first login is the one without credentials. When it returns \<open>-EKEYEXPIRED\<close>
  (cookie expired) a warning is printed and \<open>aur_login\<close> is called again, with credentials;
  when it returns \<open>-ENOKEY\<close> (no cookie found) the second call follows without any output.
  In both cases exactly two logins are made, the first without and the second with
  credentials, and when the second does not fail the program goes on to the uploads with
  its result.
\<close>

theorem cookie_login_falls_back_to_password:
  "aur_login e tr False = r1 \<and> (r1 = - EKEYEXPIRED \<or> r1 = - ENOKEY) \<and>
   warning = (if r1 = - EKEYEXPIRED
              then [Stderr ''warning: Your cookie has expired -- using password login\<newline>'']
              else []) \<and>
   aur_login e (tr @ Aur_login False r1 # warning) True = r2 \<longrightarrow>
     (\<exists>rest. snd (main_session e category targets tr) =
              tr @ Aur_login False r1 # warning @ Aur_login True r2 # rest) \<and>
     logins (snd (main_session e category targets tr)) = logins tr @ [(False, r1), (True, r2)] \<and>
     (0 \<le> r2 \<longrightarrow>
        main_session e category targets tr =
          main_upload e category targets r2
            (tr @ Aur_login False r1 # warning @ [Aur_login True r2]))"
proof (intro impI, elim conjE)
  assume first: "aur_login e tr False = r1"
    and kind: "r1 = - EKEYEXPIRED \<or> r1 = - ENOKEY"
    and warning: "warning = (if r1 = - EKEYEXPIRED
              then [Stderr ''warning: Your cookie has expired -- using password login\<newline>'']
              else [])"
    and second: "aur_login e (tr @ Aur_login False r1 # warning) True = r2"
  let ?tr2 = "tr @ Aur_login False r1 # warning @ [Aur_login True r2]"
  from kind have neg: "r1 < 0" by (auto simp: EKEYEXPIRED_def ENOKEY_def)
  have fb: "login_fallback e r1 (tr @ [Aur_login False r1]) = (r2, ?tr2)"
    using kind warning second
    by (auto simp: login_fallback_def Let_def EKEYEXPIRED_def ENOKEY_def)
  have good: "main_session e category targets tr = main_upload e category targets r2 ?tr2"
    if "0 \<le> r2"
    using first neg fb that by (simp add: main_session_def Let_def)
  have bad: "main_session e category targets tr = (EXIT_FAILURE, ?tr2 @ snd (make_login_error e r2))"
    if "r2 < 0"
    using first neg fb that by (simp add: main_session_def Let_def make_login_error_def)
  have events: "\<exists>rest. snd (main_session e category targets tr) =
              tr @ Aur_login False r1 # warning @ Aur_login True r2 # rest"
  proof (cases "0 \<le> r2")
    case True
    from main_upload_extends [of e category targets r2 ?tr2] obtain rest where
      "snd (main_upload e category targets r2 ?tr2) = ?tr2 @ rest" by blast
    with good [OF True] show ?thesis by simp
  next
    case False
    with bad show ?thesis by simp
  qed
  have "logins warning = []" using warning by simp
  then have logins: "logins (snd (main_session e category targets tr)) =
      logins tr @ [(False, r1), (True, r2)]"
    using first kind warning second
    by (auto simp: main_session_logins EKEYEXPIRED_def ENOKEY_def)
  from events logins good
  show "(\<exists>rest. snd (main_session e category targets tr) =
              tr @ Aur_login False r1 # warning @ Aur_login True r2 # rest) \<and>
     logins (snd (main_session e category targets tr)) = logins tr @ [(False, r1), (True, r2)] \<and>
     (0 \<le> r2 \<longrightarrow>
        main_session e category targets tr =
          main_upload e category targets r2
            (tr @ Aur_login False r1 # warning @ [Aur_login True r2]))"
    by blast
qed

theorem cookie_login_falls_back_to_password_witness:
  "main_session (sample_env (Inl ENOENT) (- EKEYEXPIRED) 0) (Some ''1'') [''a''] [] =
     (EXIT_SUCCESS,
      [Aur_login False (- EKEYEXPIRED),
       Stderr ''warning: Your cookie has expired -- using password login\<newline>'',
       Aur_login True 0,
       Aur_upload ''a'' (Some ''1'') 0 None, Stdout ''success: uploaded a\<newline>'', Aur_free]) \<and>
   main_session (sample_env (Inl ENOENT) (- ENOKEY) 0) (Some ''1'') [''a''] [] =
     (EXIT_SUCCESS,
      [Aur_login False (- ENOKEY), Aur_login True 0,
       Aur_upload ''a'' (Some ''1'') 0 None, Stdout ''success: uploaded a\<newline>'', Aur_free])"
proof -
  let ?expired = "sample_env (Inl ENOENT) (- EKEYEXPIRED) 0"
  let ?nokey = "sample_env (Inl ENOENT) (- ENOKEY) 0"
  let ?warning = "[Stderr ''warning: Your cookie has expired -- using password login\<newline>'']"
  have "main_session ?expired (Some ''1'') [''a''] [] =
        main_upload ?expired (Some ''1'') [''a''] 0
          ([] @ Aur_login False (- EKEYEXPIRED) # ?warning @ [Aur_login True 0])"
    using cookie_login_falls_back_to_password
      [of ?expired "[]" "- EKEYEXPIRED" ?warning 0 "Some ''1''" "[''a'']"]
    by (simp add: sample_env_def)
  moreover have "main_session ?nokey (Some ''1'') [''a''] [] =
        main_upload ?nokey (Some ''1'') [''a''] 0
          ([] @ Aur_login False (- ENOKEY) # [] @ [Aur_login True 0])"
    using cookie_login_falls_back_to_password
      [of ?nokey "[]" "- ENOKEY" "[]" 0 "Some ''1''" "[''a'']"]
    by (simp add: sample_env_def EKEYEXPIRED_def ENOKEY_def)
  ultimately show ?thesis
    by (simp add: main_upload_def sample_env_def EXIT_SUCCESS_def)
qed

lemma find_config_file_printed: "list_all printed (snd (find_config_file e))"
  by (simp add: find_config_file_def Let_def split: option.splits)

lemma config_line_printed: "config_line e buf a = Inr (a', out) \<Longrightarrow> list_all printed out"
  by (auto simp: config_line_def Let_def split: prod.splits if_splits sum.splits option.splits)

lemma read_lines_printed:
  "read_lines e fp a out = Inr (a', out') \<Longrightarrow> list_all printed out \<Longrightarrow> list_all printed out'"
proof (induction e fp a out rule: read_lines.induct)
  case (1 e fp a out)
  show ?case
  proof (cases "fgets BUFSIZ fp")
    case None
    with "1.prems" show ?thesis by (simp add: read_lines.simps)
  next
    case (Some lf)
    obtain line fp' where lf: "lf = (line, fp')" by (cases lf)
    from "1.prems"(1) Some lf obtain a1 out1 where
      cl: "config_line e line a = Inr (a1, out1)"
      and rest: "read_lines e fp' a1 (out @ out1) = Inr (a', out')"
      by (subst (asm) read_lines.simps) (auto split: sum.splits)
    from config_line_printed [OF cl] "1.prems"(2) have "list_all printed (out @ out1)" by simp
    with "1.IH" [OF Some lf [symmetric] cl refl rest] show ?thesis .
  qed
qed

lemma read_config_file_printed:
  "read_config_file e a = Inr (rc, a', out) \<Longrightarrow> list_all printed out"
  using find_config_file_printed [of e]
  by (auto simp: read_config_file_def split: prod.splits option.splits sum.splits if_splits
        dest: read_lines_printed)

lemma usage_categories_printed: "list_all printed usage_categories"
  by (simp add: usage_categories_def list_all_iff)

lemma parseargs_loop_printed:
  "list_all printed (fst (snd (snd (parseargs_loop e opts a n))))"
  by (induction opts arbitrary: a n)
     (auto simp: Let_def usage_def usage_categories_printed)

lemma main_setters_no_calls: "logins (main_setters a) = [] \<and> uploads (main_setters a) = []"
  by (simp add: main_setters_def logins_append uploads_append split: option.splits)

lemma main_cases:
  assumes "main e cmd = Inr (status, events)"
  shows "(status = EXIT_FAILURE \<and> logins events = [] \<and> uploads events = []) \<or>
         (\<exists>tr category targets. logins tr = [] \<and> uploads tr = [] \<and>
            main_session e category targets tr = (status, events))"
proof -
  from assms obtain rc a1 out1 where
    conf: "read_config_file e initial_args = Inr (rc, a1, out1)"
    by (auto simp: main_def split: sum.splits)
  note p1 = read_config_file_printed [OF conf]
  show ?thesis
  proof (cases "rc < 0")
    case True
    with assms conf p1 show ?thesis
      by (auto simp: main_def dest: printed_no_calls)
  next
    case False
    obtain rc2 a2 out2 ncalls where
      pa: "parseargs e (getopt_results cmd) a1 = (rc2, a2, out2, ncalls)"
      by (cases "parseargs e (getopt_results cmd) a1") auto
    from parseargs_loop_printed [of e "getopt_results cmd" a1 0] pa
    have p2: "list_all printed out2" by (simp add: parseargs_def)
    from p1 p2 have p12: "list_all printed (out1 @ out2)" by simp
    note n12 = printed_no_calls [OF p12]
    show ?thesis
    proof (cases "rc2 < 0")
      case True
      with assms conf pa False n12 show ?thesis
        by (auto simp: main_def)
    next
      case rc2: False
      define r where "r = aur_new e (arg_domain a2) True"
      define tr where "tr = out1 @ out2 @ [Aur_new (arg_domain a2) True r]"
      have tr: "logins tr = []" "uploads tr = []"
        using n12 by (simp_all add: tr_def logins_append uploads_append)
      show ?thesis
      proof (cases "r < 0")
        case True
        with assms conf pa False rc2 tr show ?thesis
          by (auto simp: main_def Let_def r_def tr_def logins_append uploads_append)
      next
        case r: False
        have "logins (tr @ main_setters a2) = []" "uploads (tr @ main_setters a2) = []"
          using tr main_setters_no_calls [of a2] by (simp_all add: logins_append uploads_append)
        moreover from assms conf pa False rc2 r
        have "main_session e (arg_category a2) (operands cmd ncalls) (tr @ main_setters a2)
                = (status, events)"
          by (simp add: main_def Let_def r_def tr_def)
        ultimately show ?thesis by blast
      qed
    qed
  qed
qed

lemma main_session_capped:
  "length (logins (snd (main_session e category targets tr))) \<le> length (logins tr) + 2"
  by (simp add: main_session_logins)

lemma main_session_terminal:
  assumes "aur_login e tr False = r1" "r1 < 0" "r1 \<noteq> - EKEYEXPIRED" "r1 \<noteq> - ENOKEY"
  shows "main_session e category targets tr =
           (EXIT_FAILURE, tr @ Aur_login False r1 # snd (make_login_error e r1))"
  using assms by (simp add: main_session_def login_fallback_def Let_def make_login_error_def)

text \<open>
  C3. When the first login fails with any code other than \<open>-EKEYEXPIRED\<close> and \<open>-ENOKEY\<close>,
  the program prints the diagnostic of that code and stops with \<open>EXIT_FAILURE\<close>; that login
  is the only one made. No run of the session makes more than two logins, and no run of
  \<open>main\<close> does.
\<close>

theorem other_login_failures_are_terminal:
  "(aur_login e tr False = r1 \<and> r1 < 0 \<and> r1 \<noteq> - EKEYEXPIRED \<and> r1 \<noteq> - ENOKEY \<longrightarrow>
      main_session e category targets tr =
        (EXIT_FAILURE, tr @ Aur_login False r1 # snd (make_login_error e r1)) \<and>
      logins (snd (main_session e category targets tr)) = logins tr @ [(False, r1)]) \<and>
   length (logins (snd (main_session e category targets tr))) \<le> length (logins tr) + 2 \<and>
   (main e cmd = Inr (status, events) \<longrightarrow> length (logins events) \<le> 2)"
proof (intro conjI impI)
  assume h: "aur_login e tr False = r1 \<and> r1 < 0 \<and> r1 \<noteq> - EKEYEXPIRED \<and> r1 \<noteq> - ENOKEY"
  then show "main_session e category targets tr =
        (EXIT_FAILURE, tr @ Aur_login False r1 # snd (make_login_error e r1))"
    by (simp add: main_session_terminal)
  from h show "logins (snd (main_session e category targets tr)) = logins tr @ [(False, r1)]"
    by (simp add: main_session_logins)
next
  show "length (logins (snd (main_session e category targets tr))) \<le> length (logins tr) + 2"
    by (rule main_session_capped)
next
  assume "main e cmd = Inr (status, events)"
  from main_cases [OF this] show "length (logins events) \<le> 2"
  proof
    assume "status = EXIT_FAILURE \<and> logins events = [] \<and> uploads events = []"
    then show ?thesis by simp
  next
    assume "\<exists>tr category targets. logins tr = [] \<and> uploads tr = [] \<and>
            main_session e category targets tr = (status, events)"
    then obtain tr category targets where
      "logins tr = []" "main_session e category targets tr = (status, events)" by blast
    with main_session_capped [of e category targets tr] show ?thesis by simp
  qed
qed

lemma sample_main_insufficient:
  "main (sample_env (Inl ENOENT) (- EBADR) 0) \<lparr>getopt_results = [], operands = (\<lambda>n. [''a''])\<rparr> =
     Inr (EXIT_FAILURE,
          [Aur_new ''aur.archlinux.org'' True 0, Aur_login False (- EBADR),
           Stderr ''error: insufficient credentials provided to login.\<newline>''])"
  by (simp add: main_def read_config_file_def find_config_file_def sample_env_def parseargs_def
        main_setters_def initial_args_def main_session_def login_fallback_def make_login_error_def
        Let_def EBADR_def ENOENT_def EKEYEXPIRED_def ENOKEY_def)

theorem other_login_failures_are_terminal_witness:
  "main_session (sample_env (Inl ENOENT) (- EBADR) 0) (Some ''1'') [''a''] [] =
     (EXIT_FAILURE,
      [Aur_login False (- EBADR),
       Stderr ''error: insufficient credentials provided to login.\<newline>'']) \<and>
   length (logins
     [Aur_new ''aur.archlinux.org'' True 0, Aur_login False (- EBADR),
      Stderr ''error: insufficient credentials provided to login.\<newline>'']) \<le> 2"
proof -
  let ?e = "sample_env (Inl ENOENT) (- EBADR) 0"
  let ?events = "[Aur_new ''aur.archlinux.org'' True 0, Aur_login False (- EBADR),
      Stderr ''error: insufficient credentials provided to login.\<newline>'']"
  note inst = other_login_failures_are_terminal
    [of ?e "[]" "- EBADR" "Some ''1''" "[''a'']"
        "\<lparr>getopt_results = [], operands = (\<lambda>n. [''a''])\<rparr>" EXIT_FAILURE ?events]
  have first: "aur_login ?e [] False = - EBADR \<and> - EBADR < 0 \<and> - EBADR \<noteq> - EKEYEXPIRED \<and>
               - EBADR \<noteq> - ENOKEY"
    by (simp add: sample_env_def EBADR_def EKEYEXPIRED_def ENOKEY_def)
  from inst first have "main_session ?e (Some ''1'') [''a''] [] =
        (EXIT_FAILURE, [] @ Aur_login False (- EBADR) # snd (make_login_error ?e (- EBADR)))"
    by blast
  moreover from inst sample_main_insufficient have "length (logins ?events) \<le> 2"
    by blast
  ultimately show ?thesis
    by (simp add: make_login_error_def)
qed

lemma make_login_error_uploads: "uploads (snd (make_login_error e err)) = []"
  using printed_no_calls [OF make_login_error_printed [of e err]] by simp

lemma main_session_failed:
  assumes run: "main_session e category targets tr = (status, events)"
    and neg: "snd (last (logins events)) < 0"
  shows "status = EXIT_FAILURE \<and> uploads events = uploads tr \<and>
         (\<exists>pre. events = pre @ snd (make_login_error e (snd (last (logins events)))))"
proof -
  define r1 where "r1 = aur_login e tr False"
  define tr1 where "tr1 = tr @ [Aur_login False r1]"
  define w where "w = Stderr ''warning: Your cookie has expired -- using password login\<newline>''"
  have ev: "events = snd (main_session e category targets tr)" using run by simp
  have up1: "uploads tr1 = uploads tr" by (simp add: tr1_def uploads_append)
  consider (ok) "0 \<le> r1" | (expired) "r1 = - EKEYEXPIRED" | (nokey) "r1 = - ENOKEY"
    | (other) "r1 < 0" "r1 \<noteq> - EKEYEXPIRED" "r1 \<noteq> - ENOKEY"
    by linarith
  then show ?thesis
  proof cases
    case ok
    then have "r1 \<noteq> - EKEYEXPIRED" "r1 \<noteq> - ENOKEY"
      by (simp_all add: EKEYEXPIRED_def ENOKEY_def)
    then have "snd (last (logins events)) = r1"
      unfolding ev main_session_logins by (simp add: r1_def)
    with neg ok show ?thesis by simp
  next
    case expired
    define r2 where "r2 = aur_login e (tr1 @ [w]) True"
    have last: "snd (last (logins events)) = r2"
      unfolding ev main_session_logins using expired
      by (simp add: r1_def [symmetric] r2_def tr1_def w_def)
    have r1neg: "r1 < 0" using expired by (simp add: EKEYEXPIRED_def)
    have "main_session e category targets tr =
            (EXIT_FAILURE, (tr1 @ [w, Aur_login True r2]) @ snd (make_login_error e r2))"
      using expired r1neg neg [unfolded last]
      by (simp add: main_session_def login_fallback_def Let_def r1_def [symmetric] r2_def
            tr1_def w_def make_login_error_def)
    with run have "status = EXIT_FAILURE"
      "events = (tr1 @ [w, Aur_login True r2]) @ snd (make_login_error e r2)" by simp_all
    then show ?thesis unfolding last using up1
      by (auto simp: uploads_append make_login_error_uploads w_def)
  next
    case nokey
    define r2 where "r2 = aur_login e tr1 True"
    have ne: "r1 \<noteq> - EKEYEXPIRED" using nokey by (simp add: EKEYEXPIRED_def ENOKEY_def)
    have last: "snd (last (logins events)) = r2"
      unfolding ev main_session_logins using nokey ne
      by (simp add: r1_def [symmetric] r2_def tr1_def)
    have r1neg: "r1 < 0" using nokey by (simp add: ENOKEY_def)
    have "main_session e category targets tr =
            (EXIT_FAILURE, (tr1 @ [Aur_login True r2]) @ snd (make_login_error e r2))"
      using nokey ne r1neg neg [unfolded last]
      by (simp add: main_session_def login_fallback_def Let_def r1_def [symmetric] r2_def
            tr1_def make_login_error_def)
    with run have "status = EXIT_FAILURE"
      "events = (tr1 @ [Aur_login True r2]) @ snd (make_login_error e r2)" by simp_all
    then show ?thesis unfolding last using up1
      by (auto simp: uploads_append make_login_error_uploads)
  next
    case other
    have last: "snd (last (logins events)) = r1"
      unfolding ev main_session_logins using other by (simp add: r1_def)
    have "main_session e category targets tr =
            (EXIT_FAILURE, tr1 @ snd (make_login_error e r1))"
      using main_session_terminal [OF r1_def [symmetric] other] by (simp add: tr1_def)
    with run have "status = EXIT_FAILURE"
      "events = tr1 @ snd (make_login_error e r1)" by simp_all
    then show ?thesis unfolding last using up1
      by (auto simp: uploads_append make_login_error_uploads)
  qed
qed

text \<open>
  C4. \<open>make_login_error\<close> prints, for \<open>-EBADR\<close>, \<open>-EACCES\<close>, \<open>-EKEYEXPIRED\<close> and
  \<open>-EKEYREJECTED\<close>, the four fixed lines, and for any other code the general line with the
  text of \<open>strerror\<close>; it returns \<open>EXIT_FAILURE\<close>, which is not 0. Whenever the last login
  of a run of \<open>main\<close> failed, the run ends with that diagnostic as its last output and with
  \<open>EXIT_FAILURE\<close>, and \<open>aur_upload\<close> was never called.
\<close>

theorem login_failure_diagnostic:
  "make_login_error e (- EBADR) =
     (EXIT_FAILURE, [Stderr ''error: insufficient credentials provided to login.\<newline>'']) \<and>
   make_login_error e (- EACCES) =
     (EXIT_FAILURE, [Stderr ''error: bad username or password.\<newline>'']) \<and>
   make_login_error e (- EKEYEXPIRED) =
     (EXIT_FAILURE, [Stderr ''error: required login cookie has expired.\<newline>'']) \<and>
   make_login_error e (- EKEYREJECTED) =
     (EXIT_FAILURE, [Stderr ''error: login cookie not accepted.\<newline>'']) \<and>
   (err \<notin> {- EBADR, - EACCES, - EKEYEXPIRED, - EKEYREJECTED} \<longrightarrow>
      make_login_error e err =
        (EXIT_FAILURE,
         [Stderr (''error: failed to login to AUR: '' @ strerror e (- err) @ ''\<newline>'')])) \<and>
   EXIT_FAILURE \<noteq> 0 \<and>
   (main e cmd = Inr (status, events) \<and> logins events \<noteq> [] \<and> snd (last (logins events)) < 0 \<longrightarrow>
      status = EXIT_FAILURE \<and> uploads events = [] \<and>
      (\<exists>pre. events = pre @ snd (make_login_error e (snd (last (logins events))))))"
proof (intro conjI impI)
  assume h: "main e cmd = Inr (status, events) \<and> logins events \<noteq> [] \<and>
             snd (last (logins events)) < 0"
  with main_cases [of e cmd status events] obtain tr category targets where
    tr: "logins tr = []" "uploads tr = []"
    and run: "main_session e category targets tr = (status, events)"
    by auto
  from main_session_failed [OF run] h tr
  show "status = EXIT_FAILURE" "uploads events = []"
    "\<exists>pre. events = pre @ snd (make_login_error e (snd (last (logins events))))"
    by auto
qed (auto simp: make_login_error_def EBADR_def EACCES_def EKEYEXPIRED_def EKEYREJECTED_def
       EXIT_FAILURE_def)

theorem login_failure_diagnostic_witness:
  "make_login_error (sample_env (Inl ENOENT) (- EKEYEXPIRED) (- EACCES)) (- 1) =
     (EXIT_FAILURE, [Stderr ''error: failed to login to AUR: errno\<newline>'']) \<and>
   main (sample_env (Inl ENOENT) (- EKEYEXPIRED) (- EACCES))
        \<lparr>getopt_results = [], operands = (\<lambda>n. [''a''])\<rparr> =
     Inr (EXIT_FAILURE,
          [Aur_new ''aur.archlinux.org'' True 0, Aur_login False (- EKEYEXPIRED),
           Stderr ''warning: Your cookie has expired -- using password login\<newline>'',
           Aur_login True (- EACCES), Stderr ''error: bad username or password.\<newline>'']) \<and>
   uploads
     [Aur_new ''aur.archlinux.org'' True 0, Aur_login False (- EKEYEXPIRED),
      Stderr ''warning: Your cookie has expired -- using password login\<newline>'',
      Aur_login True (- EACCES), Stderr ''error: bad username or password.\<newline>''] = []"
proof -
  let ?e = "sample_env (Inl ENOENT) (- EKEYEXPIRED) (- EACCES)"
  let ?cmd = "\<lparr>getopt_results = [], operands = (\<lambda>n. [''a''])\<rparr>"
  let ?events = "[Aur_new ''aur.archlinux.org'' True 0, Aur_login False (- EKEYEXPIRED),
      Stderr ''warning: Your cookie has expired -- using password login\<newline>'',
      Aur_login True (- EACCES), Stderr ''error: bad username or password.\<newline>'']"
  note inst = login_failure_diagnostic [of ?e "- 1" ?cmd EXIT_FAILURE ?events]
  have other: "(- 1 :: int) \<notin> {- EBADR, - EACCES, - EKEYEXPIRED, - EKEYREJECTED}"
    by (simp add: EBADR_def EACCES_def EKEYEXPIRED_def EKEYREJECTED_def)
  have run: "main ?e ?cmd = Inr (EXIT_FAILURE, ?events)"
    by (simp add: main_def read_config_file_def find_config_file_def sample_env_def parseargs_def
        main_setters_def initial_args_def main_session_def login_fallback_def make_login_error_def
        Let_def EACCES_def EBADR_def ENOENT_def EKEYEXPIRED_def ENOKEY_def)
  have last: "logins ?events \<noteq> [] \<and> snd (last (logins ?events)) < 0"
    by (simp add: EACCES_def)
  from inst other have "make_login_error ?e (- 1) =
        (EXIT_FAILURE,
         [Stderr (''error: failed to login to AUR: '' @ strerror ?e (- (- 1)) @ ''\<newline>'')])"
    by blast
  moreover from inst run last have "uploads ?events = []" by blast
  ultimately show ?thesis using run by (simp add: sample_env_def)
qed

section \<open>The configuration file: lines\<close>

lemma strtrim_buf_fst:
  "fst (strtrim_buf s) = rev (dropWhile isspace (rev (dropWhile isspace s)))"
proof (cases "dropWhile isspace s = []")
  case True
  then show ?thesis by (simp add: strtrim_buf_def Let_def del: dropWhile_eq_Nil_conv)
next
  case False
  then have "s \<noteq> []" by auto
  with False show ?thesis by (simp add: strtrim_buf_def Let_def del: dropWhile_eq_Nil_conv)
qed

lemma strtrim_buf_snd: "snd (strtrim_buf s) = length (fst (strtrim_buf s))"
  by (simp add: strtrim_buf_def Let_def)

lemma isspace_eq_sign [simp]: "\<not> isspace CHR ''=''"
  by (simp add: isspace_def)

lemma dropWhile_spaces: "list_all isspace w \<Longrightarrow> dropWhile isspace (w @ s) = dropWhile isspace s"
  by (simp add: list_all_iff)

lemma dropWhile_trimmed: "trimmed s \<Longrightarrow> dropWhile isspace (s @ t) = (if s = [] then dropWhile isspace t else s @ t)"
  by (cases s) (auto simp: trimmed_def)

lemma dropWhile_rev_trimmed:
  "trimmed s \<Longrightarrow> dropWhile isspace (rev s @ t) = (if s = [] then dropWhile isspace t else rev s @ t)"
  by (cases s rule: rev_cases) (auto simp: trimmed_def)

lemma spaces_rev: "list_all isspace w \<Longrightarrow> list_all isspace (rev w)"
  by (simp add: list_all_iff)

lemma trim_spaces:
  assumes "list_all isspace w"
  shows "fst (strtrim_buf w) = []"
proof -
  have "dropWhile isspace w = []" using assms by (simp add: list_all_iff)
  then show ?thesis by (simp only: strtrim_buf_fst rev.simps dropWhile.simps)
qed

lemma trim_key: "trimmed k \<Longrightarrow> list_all isspace w \<Longrightarrow> fst (strtrim_buf (k @ w)) = k"
proof -
  assume k: "trimmed k" and w: "list_all isspace w"
  show ?thesis
  proof (cases "k = []")
    case True
    with w show ?thesis by (simp add: trim_spaces)
  next
    case False
    with k have "dropWhile isspace (k @ w) = k @ w" by (simp add: dropWhile_trimmed)
    moreover have "dropWhile isspace (rev w @ rev k) = rev k"
      using dropWhile_spaces [OF spaces_rev [OF w], of "rev k"] k False
        dropWhile_rev_trimmed [of k "[]"]
      by simp
    ultimately show ?thesis by (simp add: strtrim_buf_fst)
  qed
qed

lemma trim_value: "trimmed v \<Longrightarrow> list_all isspace w \<Longrightarrow> fst (strtrim_buf (w @ v)) = v"
proof -
  assume v: "trimmed v" and w: "list_all isspace w"
  from w have "dropWhile isspace (w @ v) = dropWhile isspace v" by (rule dropWhile_spaces)
  also have "\<dots> = v" using dropWhile_trimmed [OF v, of "[]"] by simp
  finally have "fst (strtrim_buf (w @ v)) = rev (dropWhile isspace (rev v))"
    by (simp add: strtrim_buf_fst)
  also have "\<dots> = v" using dropWhile_rev_trimmed [OF v, of "[]"] by simp
  finally show ?thesis .
qed

lemma trim_line:
  assumes w: "list_all isspace w1" "list_all isspace w2" "list_all isspace w3" "list_all isspace w4"
    and k: "trimmed k" and v: "trimmed v"
  shows "fst (strtrim_buf (w1 @ k @ w2 @ ''='' @ w3 @ v @ w4)) =
           (if k = [] then [] else k @ w2) @ ''='' @ (if v = [] then [] else w3 @ v)"
proof -
  let ?K = "if k = [] then [] else k @ w2"
  let ?V = "if v = [] then [] else w3 @ v"
  have "dropWhile isspace (w1 @ k @ w2 @ ''='' @ w3 @ v @ w4) =
        dropWhile isspace (k @ w2 @ ''='' @ w3 @ v @ w4)"
    using w(1) by (rule dropWhile_spaces)
  also have "\<dots> = ?K @ ''='' @ w3 @ v @ w4"
    using dropWhile_trimmed [OF k, of "w2 @ ''='' @ w3 @ v @ w4"]
      dropWhile_spaces [OF w(2), of "''='' @ w3 @ v @ w4"]
    by simp
  finally have left: "dropWhile isspace (w1 @ k @ w2 @ ''='' @ w3 @ v @ w4) = ?K @ ''='' @ w3 @ v @ w4" .
  have w4r: "list_all isspace (rev w4)" and w3r: "list_all isspace (rev w3)"
    using w by (simp_all add: spaces_rev)
  have "dropWhile isspace (rev (?K @ ''='' @ w3 @ v @ w4)) =
        dropWhile isspace (rev v @ rev w3 @ ''='' @ rev ?K)"
    using dropWhile_spaces [OF w4r, of "rev v @ rev w3 @ ''='' @ rev ?K"] by simp
  also have "\<dots> = rev ?V @ ''='' @ rev ?K"
    using dropWhile_rev_trimmed [OF v, of "rev w3 @ ''='' @ rev ?K"]
      dropWhile_spaces [OF w3r, of "''='' @ rev ?K"]
    by simp
  finally have "rev (dropWhile isspace (rev (?K @ ''='' @ w3 @ v @ w4))) = ?K @ ''='' @ ?V"
    by simp
  with left show ?thesis by (simp add: strtrim_buf_fst)
qed

lemma strsep_first_delim:
  assumes "d \<notin> set k"
  shows "strsep (k @ d # rest) [d] = (k, Some rest)"
proof -
  have "dropWhile (\<lambda>c. c \<notin> set [d]) (k @ d # rest) = d # rest"
    using assms by (induction k) auto
  moreover have "takeWhile (\<lambda>c. c \<notin> set [d]) (k @ d # rest) = k"
    using assms by (induction k) auto
  ultimately show ?thesis by (simp add: strsep_def)
qed

lemma key_value_line:
  assumes w: "list_all isspace w2" "list_all isspace w3"
    and k: "trimmed k" "CHR ''='' \<notin> set k" and v: "trimmed v"
  shows "key_value ((if k = [] then [] else k @ w2) @ ''='' @ (if v = [] then [] else w3 @ v))
         = (k, Some v)"
proof -
  let ?K = "if k = [] then [] else k @ w2"
  let ?V = "if v = [] then [] else w3 @ v"
  have "CHR ''='' \<notin> set ?K" using k(2) w(1) by (auto simp: list_all_iff)
  then have "strsep (?K @ CHR ''='' # ?V) ''='' = (?K, Some ?V)" by (rule strsep_first_delim)
  moreover have "fst (strtrim_buf ?K) = k"
    using trim_key [OF k(1) w(1)] by (cases "k = []") (simp_all add: strtrim_buf_def)
  moreover have "fst (strtrim_buf ?V) = v"
    using trim_value [OF v w(2)] by (cases "v = []") (simp_all add: strtrim_buf_def)
  ultimately show ?thesis by (simp add: key_value_def)
qed

lemma config_line_cong:
  assumes "snd (strtrim_buf b1) = 0 \<longleftrightarrow> snd (strtrim_buf b2) = 0"
    and "take 1 (fst (strtrim_buf b1)) = take 1 (fst (strtrim_buf b2))"
    and "key_value (fst (strtrim_buf b1)) = key_value (fst (strtrim_buf b2))"
  shows "config_line e b1 a = config_line e b2 a"
  using assms by (simp add: config_line_def split_beta Let_def)

lemma config_line_blank:
  assumes "list_all isspace buf"
  shows "config_line e buf a = Inr (a, [])"
proof -
  have "snd (strtrim_buf buf) = 0"
    using trim_spaces [OF assms] by (simp add: strtrim_buf_snd)
  then show ?thesis by (simp add: config_line_def split_beta)
qed

lemma config_line_comment:
  assumes "take 1 (dropWhile isspace buf) = ''#''"
  shows "config_line e buf a = Inr (a, [])"
proof -
  from assms obtain rest where left: "dropWhile isspace buf = CHR ''#'' # rest"
    by (cases "dropWhile isspace buf") auto
  have "\<not> isspace CHR ''#''" by (simp add: isspace_def)
  then have "dropWhile isspace (rev rest @ ''#'') = dropWhile isspace (rev rest) @ ''#''"
    by (simp add: dropWhile_append3)
  with left have "take 1 (fst (strtrim_buf buf)) = ''#''"
    by (simp add: strtrim_buf_fst)
  then show ?thesis by (simp add: config_line_def split_beta)
qed

lemma config_line_surrounding_space:
  assumes w: "list_all isspace w1" "list_all isspace w2" "list_all isspace w3" "list_all isspace w4"
    and k: "trimmed k" "CHR ''='' \<notin> set k" and v: "trimmed v"
  shows "config_line e (w1 @ k @ w2 @ ''='' @ w3 @ v @ w4) a = config_line e (k @ ''='' @ v) a"
proof (rule config_line_cong)
  let ?full = "fst (strtrim_buf (w1 @ k @ w2 @ ''='' @ w3 @ v @ w4))"
  let ?bare = "fst (strtrim_buf (k @ ''='' @ v))"
  have full: "?full = (if k = [] then [] else k @ w2) @ ''='' @ (if v = [] then [] else w3 @ v)"
    using w k(1) v by (rule trim_line)
  have bare: "?bare = (if k = [] then [] else k @ []) @ ''='' @ (if v = [] then [] else [] @ v)"
    using trim_line [of "[]" "[]" "[]" "[]" k v] k(1) v by simp
  show "snd (strtrim_buf (w1 @ k @ w2 @ ''='' @ w3 @ v @ w4)) = 0 \<longleftrightarrow>
        snd (strtrim_buf (k @ ''='' @ v)) = 0"
    unfolding strtrim_buf_snd full bare by simp
  show "take 1 ?full = take 1 ?bare"
    unfolding full bare by (cases k) simp_all
  have "key_value ?full = (k, Some v)"
    unfolding full using w(2,3) k v by (rule key_value_line)
  moreover have "key_value ?bare = (k, Some v)"
    unfolding bare using key_value_line [of "[]" "[]" k v] k v by simp
  ultimately show "key_value ?full = key_value ?bare" by simp
qed

lemma config_line_user_alice:
  "alloc_ok e ''alice'' \<Longrightarrow>
     config_line e ''  User = alice  '' a = Inr (a\<lparr>arg_username := Some ''alice''\<rparr>, []) \<and>
     config_line e ''User=alice'' a = Inr (a\<lparr>arg_username := Some ''alice''\<rparr>, [])"
  by (simp add: config_line_def strtrim_buf_def key_value_def strsep_def streq_def strdup_def
        isspace_def Let_def)

lemma read_sample_spaced:
  "read_config_file (sample_env (Inr ''# burp\<newline>\<newline>  User = alice  \<newline>'') 0 0) initial_args =
     Inr (0, initial_args\<lparr>arg_username := Some ''alice''\<rparr>, [])"
  by (simp add: read_config_file_def find_config_file_def sample_env_def
        read_lines.simps fgets_def BUFSIZ_def
        config_line_def strtrim_buf_def key_value_def strsep_def streq_def strdup_def
        isspace_def Let_def)

lemma read_sample_bare:
  "read_config_file (sample_env (Inr ''User=alice'') 0 0) initial_args =
     Inr (0, initial_args\<lparr>arg_username := Some ''alice''\<rparr>, [])"
  by (simp add: read_config_file_def find_config_file_def sample_env_def
        read_lines.simps fgets_def BUFSIZ_def
        config_line_def strtrim_buf_def key_value_def strsep_def streq_def strdup_def
        isspace_def Let_def)

lemma fgets_chunk_line:
  "length l < n \<Longrightarrow> CHR 0x0A \<notin> set l \<Longrightarrow> fgets_chunk n (l @ CHR 0x0A # rest) = l @ [CHR 0x0A]"
  by (induction l arbitrary: n) auto

lemma fgets_chunk_prefix:
  "CHR 0x0A \<notin> set l \<Longrightarrow> length l \<le> n \<Longrightarrow>
     fgets_chunk n (l @ rest) = l @ fgets_chunk (n - length l) rest"
  by (induction l arbitrary: n) auto

lemma isspace_not_nul: "isspace c \<Longrightarrow> c \<noteq> CHR 0x00"
  by (auto simp: isspace_def)

lemma spaces_no_nul: "list_all isspace w \<Longrightarrow> CHR 0x00 \<notin> set w"
  using isspace_not_nul by (induction w) auto

lemma takeWhile_no_nul: "CHR 0x00 \<notin> set s \<Longrightarrow> takeWhile (\<lambda>c. c \<noteq> CHR 0x00) s = s"
  by (induction s) auto

lemma read_lines_fitting:
  assumes "fits_buffer l"
  shows "read_lines e (l @ CHR 0x0A # rest) a out =
           (case config_line e (takeWhile (\<lambda>c. c \<noteq> CHR 0x00) (l @ [CHR 0x0A])) a of
              Inl f \<Rightarrow> Inl f
            | Inr (a', out') \<Rightarrow> read_lines e rest a' (out @ out'))"
proof -
  from assms have "fgets_chunk (BUFSIZ - 1) (l @ CHR 0x0A # rest) = l @ [CHR 0x0A]"
    by (intro fgets_chunk_line) (simp_all add: fits_buffer_def)
  then have "fgets BUFSIZ (l @ CHR 0x0A # rest) =
               Some (takeWhile (\<lambda>c. c \<noteq> CHR 0x00) (l @ [CHR 0x0A]), rest)"
    by (simp add: fgets_def Let_def)
  then show ?thesis by (subst read_lines.simps) simp
qed

lemma read_lines_blank:
  assumes "fits_buffer l" and "list_all isspace l"
  shows "read_lines e (l @ CHR 0x0A # rest) a out = read_lines e rest a out"
proof -
  have sp: "list_all isspace (l @ [CHR 0x0A])" using assms(2) by (simp add: isspace_def)
  then have "takeWhile (\<lambda>c. c \<noteq> CHR 0x00) (l @ [CHR 0x0A]) = l @ [CHR 0x0A]"
    by (intro takeWhile_no_nul spaces_no_nul)
  with config_line_blank [OF sp, of e a] show ?thesis
    by (simp add: read_lines_fitting [OF assms(1)])
qed

lemma read_lines_comment:
  assumes "fits_buffer l" and "take 1 (dropWhile isspace l) = ''#''"
  shows "read_lines e (l @ CHR 0x0A # rest) a out = read_lines e rest a out"
proof -
  let ?buf = "takeWhile (\<lambda>c. c \<noteq> CHR 0x00) (l @ [CHR 0x0A])"
  from assms(2) obtain tl where tl: "dropWhile isspace l = CHR ''#'' # tl"
    by (cases "dropWhile isspace l") auto
  define ws where "ws = takeWhile isspace l"
  have l: "l = ws @ CHR ''#'' # tl"
    using takeWhile_dropWhile_id [of isspace l] tl by (simp add: ws_def)
  have ws: "\<forall>c\<in>set ws. isspace c" by (auto simp: ws_def dest: set_takeWhileD)
  then have nonul: "\<And>c. c \<in> set ws \<Longrightarrow> c \<noteq> CHR 0x00"
    using isspace_not_nul by blast
  have "?buf = ws @ CHR ''#'' # takeWhile (\<lambda>c. c \<noteq> CHR 0x00) (tl @ [CHR 0x0A])"
    unfolding l using nonul by (simp add: takeWhile_append2)
  moreover have "\<not> isspace CHR ''#''" by (simp add: isspace_def)
  ultimately have "take 1 (dropWhile isspace ?buf) = ''#''"
    using ws by (simp add: dropWhile_append2)
  from config_line_comment [OF this, of e a] show ?thesis
    by (simp add: read_lines_fitting [OF assms(1)])
qed

lemma read_lines_key_value:
  assumes fit: "fits_buffer (w1 @ k @ w2 @ ''='' @ w3 @ v @ w4)"
    and w: "list_all isspace w1" "list_all isspace w2" "list_all isspace w3" "list_all isspace w4"
    and k: "trimmed k" "CHR ''='' \<notin> set k" "CHR 0x00 \<notin> set k"
    and v: "trimmed v" "CHR 0x00 \<notin> set v"
  shows "read_lines e ((w1 @ k @ w2 @ ''='' @ w3 @ v @ w4) @ CHR 0x0A # rest) a out =
           (case config_line e (k @ ''='' @ v) a of
              Inl f \<Rightarrow> Inl f
            | Inr (a', out') \<Rightarrow> read_lines e rest a' (out @ out'))"
proof -
  let ?l = "w1 @ k @ w2 @ ''='' @ w3 @ v @ w4"
  have "CHR 0x00 \<notin> set (?l @ [CHR 0x0A])"
    using w [THEN spaces_no_nul] k(3) v(2) by simp
  then have tw: "takeWhile (\<lambda>c. c \<noteq> CHR 0x00) (?l @ [CHR 0x0A]) = ?l @ [CHR 0x0A]"
    by (rule takeWhile_no_nul)
  have w4: "list_all isspace (w4 @ [CHR 0x0A])" using w(4) by (simp add: isspace_def)
  have "config_line e (w1 @ k @ w2 @ ''='' @ w3 @ v @ (w4 @ [CHR 0x0A])) a =
        config_line e (k @ ''='' @ v) a"
    using w(1,2,3) w4 k(1,2) v(1) by (rule config_line_surrounding_space)
  then show ?thesis
    unfolding read_lines_fitting [OF fit] tw by simp
qed

lemma trim_trailing_newline:
  "strtrim_buf (b @ [CHR 0x0A]) = strtrim_buf b"
proof -
  have nl: "isspace CHR 0x0A" by (simp add: isspace_def)
  have "fst (strtrim_buf (b @ [CHR 0x0A])) = fst (strtrim_buf b)"
  proof (cases "list_all isspace b")
    case True
    then have "list_all isspace (b @ [CHR 0x0A])" using nl by simp
    with True show ?thesis by (simp only: trim_spaces)
  next
    case False
    then obtain x where "x \<in> set b" "\<not> isspace x" by (auto simp: list_all_iff)
    then have "dropWhile isspace (b @ [CHR 0x0A]) = dropWhile isspace b @ [CHR 0x0A]"
      by (rule dropWhile_append1)
    then show ?thesis using nl by (simp add: strtrim_buf_fst)
  qed
  then show ?thesis
    using strtrim_buf_snd [of b] strtrim_buf_snd [of "b @ [CHR 0x0A]"]
    by (simp add: prod_eq_iff)
qed

lemma config_line_trailing_newline:
  "config_line e (b @ [CHR 0x0A]) a = config_line e b a"
  by (simp add: config_line_def trim_trailing_newline)

lemma read_lines_last_line:
  assumes "l \<noteq> []" and "fits_buffer l"
  shows "read_lines e l a out = read_lines e (l @ [CHR 0x0A]) a out"
proof -
  let ?tw = "takeWhile (\<lambda>c. c \<noteq> CHR 0x00)"
  have "fgets_chunk (BUFSIZ - 1) (l @ []) = l @ fgets_chunk (BUFSIZ - 1 - length l) []"
    using assms(2) by (intro fgets_chunk_prefix) (simp_all add: fits_buffer_def)
  then have "fgets BUFSIZ l = Some (?tw l, [])"
    using assms(1) by (simp add: fgets_def Let_def)
  then have left: "read_lines e l a out =
      (case config_line e (?tw l) a of
         Inl f \<Rightarrow> Inl f
       | Inr (a', out') \<Rightarrow> read_lines e [] a' (out @ out'))"
    by (subst read_lines.simps) simp
  have "config_line e (?tw (l @ [CHR 0x0A])) a = config_line e (?tw l) a"
  proof (cases "CHR 0x00 \<in> set l")
    case True
    then show ?thesis by (simp add: takeWhile_append1)
  next
    case False
    then have "?tw (l @ [CHR 0x0A]) = ?tw l @ [CHR 0x0A]"
      by (simp add: takeWhile_no_nul)
    then show ?thesis by (simp add: config_line_trailing_newline)
  qed
  then show ?thesis
    unfolding left read_lines_fitting [OF assms(2), of e "[]" a out] by simp
qed

lemma read_lines_user_alice:
  assumes "alloc_ok e ''alice''"
  shows "read_lines e (''  User = alice  '' @ CHR 0x0A # rest) a out =
           read_lines e rest (a\<lparr>arg_username := Some ''alice''\<rparr>) out"
    and "read_lines e (''User=alice'' @ CHR 0x0A # rest) a out =
           read_lines e rest (a\<lparr>arg_username := Some ''alice''\<rparr>) out"
proof -
  have f1: "fits_buffer ''  User = alice  ''" and f2: "fits_buffer ''User=alice''"
    by (simp_all add: fits_buffer_def BUFSIZ_def)
  from config_line_user_alice [OF assms, of a]
  have c: "config_line e (''  User = alice  '' @ [CHR 0x0A]) a =
             Inr (a\<lparr>arg_username := Some ''alice''\<rparr>, [])"
    "config_line e (''User=alice'' @ [CHR 0x0A]) a =
             Inr (a\<lparr>arg_username := Some ''alice''\<rparr>, [])"
    by (simp_all only: config_line_trailing_newline)
  show "read_lines e (''  User = alice  '' @ CHR 0x0A # rest) a out =
           read_lines e rest (a\<lparr>arg_username := Some ''alice''\<rparr>) out"
    unfolding read_lines_fitting [OF f1] using c(1) by simp
  show "read_lines e (''User=alice'' @ CHR 0x0A # rest) a out =
           read_lines e rest (a\<lparr>arg_username := Some ''alice''\<rparr>) out"
    unfolding read_lines_fitting [OF f2] using c(2) by simp
qed

lemma read_lines_full_buffer:
  assumes "length l = BUFSIZ - 1" and "CHR 0x0A \<notin> set l" and "CHR 0x00 \<notin> set l"
    and "rest \<noteq> []"
  shows "read_lines e (l @ rest) a out =
           (case config_line e l a of
              Inl f \<Rightarrow> Inl f
            | Inr (a', out') \<Rightarrow> read_lines e rest a' (out @ out'))"
proof -
  from assms(4) have "fgets_chunk 0 rest = []" by (cases rest) simp_all
  with fgets_chunk_prefix [OF assms(2), of "BUFSIZ - 1" rest] assms(1)
  have "fgets_chunk (BUFSIZ - 1) (l @ rest) = l" by simp
  moreover from assms(1) have "l \<noteq> []" by (auto simp: BUFSIZ_def)
  ultimately have "fgets BUFSIZ (l @ rest) = Some (l, rest)"
    using takeWhile_no_nul [OF assms(3)] by (simp add: fgets_def Let_def)
  then show ?thesis by (subst read_lines.simps) simp
qed

text \<open>
  C7 (as amended). A line of the configuration file fits the read buffer when it has fewer
  than \<open>BUFSIZ - 1\<close> = 8191 bytes before its newline. Reading the file, a line that fits the
  buffer and is all whitespace is ignored, and so is one whose first character after
  leading whitespace is \<open>#\<close>: reading goes on with the next line, the parameters as they
  were and nothing printed. A line \<open>key = value\<close> that fits the buffer, with any whitespace
  before the key, around the \<open>=\<close> and after the value, the key and the value free of NUL
  bytes, is read as the line \<open>key=value\<close> is: the key and the value that the program
  compares and stores are the trimmed ones. In particular the lines \<open>  User = alice  \<close> and
  \<open>User=alice\<close> both set the user name to \<open>alice\<close> (when the copy can be allocated). A last
  line without a newline is read as if it had one. What \<open>fgets\<close> delivers, a whole line or a
  piece of one, is handled in the same way: ignored when it is all whitespace or starts,
  after whitespace, with \<open>#\<close>, and trimmed around the key and the value.
\<close>

theorem config_file_line_trimming:
  "(fits_buffer l \<and> list_all isspace l \<longrightarrow>
      read_lines e (l @ CHR 0x0A # rest) a out = read_lines e rest a out) \<and>
   (fits_buffer l \<and> take 1 (dropWhile isspace l) = ''#'' \<longrightarrow>
      read_lines e (l @ CHR 0x0A # rest) a out = read_lines e rest a out) \<and>
   (fits_buffer (w1 @ k @ w2 @ ''='' @ w3 @ v @ w4) \<and>
    list_all isspace w1 \<and> list_all isspace w2 \<and> list_all isspace w3 \<and> list_all isspace w4 \<and>
    trimmed k \<and> CHR ''='' \<notin> set k \<and> CHR 0x00 \<notin> set k \<and> trimmed v \<and> CHR 0x00 \<notin> set v \<longrightarrow>
      key_value (fst (strtrim_buf (w1 @ k @ w2 @ ''='' @ w3 @ v @ w4 @ [CHR 0x0A]))) =
        (k, Some v) \<and>
      read_lines e ((w1 @ k @ w2 @ ''='' @ w3 @ v @ w4) @ CHR 0x0A # rest) a out =
        (case config_line e (k @ ''='' @ v) a of
           Inl f \<Rightarrow> Inl f
         | Inr (a', out') \<Rightarrow> read_lines e rest a' (out @ out')) \<and>
      read_lines e ((w1 @ k @ w2 @ ''='' @ w3 @ v @ w4) @ CHR 0x0A # rest) a out =
        read_lines e ((k @ ''='' @ v) @ CHR 0x0A # rest) a out) \<and>
   (alloc_ok e ''alice'' \<longrightarrow>
      read_lines e (''  User = alice  '' @ CHR 0x0A # rest) a out =
        read_lines e rest (a\<lparr>arg_username := Some ''alice''\<rparr>) out \<and>
      read_lines e (''User=alice'' @ CHR 0x0A # rest) a out =
        read_lines e rest (a\<lparr>arg_username := Some ''alice''\<rparr>) out) \<and>
   (l \<noteq> [] \<and> fits_buffer l \<longrightarrow>
      read_lines e l a out = read_lines e (l @ [CHR 0x0A]) a out) \<and>
   read_config_file (sample_env (Inr ''# burp\<newline>\<newline>  User = alice  \<newline>'') 0 0) initial_args =
     Inr (0, initial_args\<lparr>arg_username := Some ''alice''\<rparr>, []) \<and>
   read_config_file (sample_env (Inr ''User=alice'') 0 0) initial_args =
     Inr (0, initial_args\<lparr>arg_username := Some ''alice''\<rparr>, []) \<and>
   (list_all isspace buf \<longrightarrow> config_line e buf a = Inr (a, [])) \<and>
   (take 1 (dropWhile isspace buf) = ''#'' \<longrightarrow> config_line e buf a = Inr (a, [])) \<and>
   (list_all isspace w1 \<and> list_all isspace w2 \<and> list_all isspace w3 \<and> list_all isspace w4 \<and>
    trimmed k \<and> CHR ''='' \<notin> set k \<and> trimmed v \<longrightarrow>
      key_value (fst (strtrim_buf (w1 @ k @ w2 @ ''='' @ w3 @ v @ w4))) = (k, Some v) \<and>
      config_line e (w1 @ k @ w2 @ ''='' @ w3 @ v @ w4) a = config_line e (k @ ''='' @ v) a)"
proof (intro conjI impI)
  assume "fits_buffer l \<and> list_all isspace l"
  then show "read_lines e (l @ CHR 0x0A # rest) a out = read_lines e rest a out"
    by (simp add: read_lines_blank)
next
  assume "fits_buffer l \<and> take 1 (dropWhile isspace l) = ''#''"
  then show "read_lines e (l @ CHR 0x0A # rest) a out = read_lines e rest a out"
    by (simp add: read_lines_comment)
next
  assume h: "fits_buffer (w1 @ k @ w2 @ ''='' @ w3 @ v @ w4) \<and>
    list_all isspace w1 \<and> list_all isspace w2 \<and> list_all isspace w3 \<and> list_all isspace w4 \<and>
    trimmed k \<and> CHR ''='' \<notin> set k \<and> CHR 0x00 \<notin> set k \<and> trimmed v \<and> CHR 0x00 \<notin> set v"
  then have w4: "list_all isspace (w4 @ [CHR 0x0A])" by (simp add: isspace_def)
  from h have "fst (strtrim_buf (w1 @ k @ w2 @ ''='' @ w3 @ v @ (w4 @ [CHR 0x0A]))) =
        (if k = [] then [] else k @ w2) @ ''='' @ (if v = [] then [] else w3 @ v)"
    by (intro trim_line w4) simp_all
  moreover from h
  have "key_value ((if k = [] then [] else k @ w2) @ ''='' @ (if v = [] then [] else w3 @ v))
        = (k, Some v)"
    by (intro key_value_line) simp_all
  ultimately
  show "key_value (fst (strtrim_buf (w1 @ k @ w2 @ ''='' @ w3 @ v @ w4 @ [CHR 0x0A]))) =
          (k, Some v)"
    by simp
  from h show full: "read_lines e ((w1 @ k @ w2 @ ''='' @ w3 @ v @ w4) @ CHR 0x0A # rest) a out =
        (case config_line e (k @ ''='' @ v) a of
           Inl f \<Rightarrow> Inl f
         | Inr (a', out') \<Rightarrow> read_lines e rest a' (out @ out'))"
    by (intro read_lines_key_value) simp_all
  from h have "length (k @ ''='' @ v) \<le> length (w1 @ k @ w2 @ ''='' @ w3 @ v @ w4)"
    and "set (k @ ''='' @ v) \<subseteq> set (w1 @ k @ w2 @ ''='' @ w3 @ v @ w4)"
    by auto
  with h have "fits_buffer ([] @ k @ [] @ ''='' @ [] @ v @ [])"
    unfolding fits_buffer_def by (simp add: subset_iff)
  with h have "read_lines e (([] @ k @ [] @ ''='' @ [] @ v @ []) @ CHR 0x0A # rest) a out =
        (case config_line e (k @ ''='' @ v) a of
           Inl f \<Rightarrow> Inl f
         | Inr (a', out') \<Rightarrow> read_lines e rest a' (out @ out'))"
    by (intro read_lines_key_value) simp_all
  with full show "read_lines e ((w1 @ k @ w2 @ ''='' @ w3 @ v @ w4) @ CHR 0x0A # rest) a out =
        read_lines e ((k @ ''='' @ v) @ CHR 0x0A # rest) a out"
    by simp
next
  assume alloc: "alloc_ok e ''alice''"
  then show "read_lines e (''  User = alice  '' @ CHR 0x0A # rest) a out =
        read_lines e rest (a\<lparr>arg_username := Some ''alice''\<rparr>) out"
    by (rule read_lines_user_alice)
  from alloc show "read_lines e (''User=alice'' @ CHR 0x0A # rest) a out =
        read_lines e rest (a\<lparr>arg_username := Some ''alice''\<rparr>) out"
    by (rule read_lines_user_alice)
next
  assume "l \<noteq> [] \<and> fits_buffer l"
  then show "read_lines e l a out = read_lines e (l @ [CHR 0x0A]) a out"
    by (simp add: read_lines_last_line)
next
  show "read_config_file (sample_env (Inr ''# burp\<newline>\<newline>  User = alice  \<newline>'') 0 0)
          initial_args = Inr (0, initial_args\<lparr>arg_username := Some ''alice''\<rparr>, [])"
    by (rule read_sample_spaced)
  show "read_config_file (sample_env (Inr ''User=alice'') 0 0) initial_args =
          Inr (0, initial_args\<lparr>arg_username := Some ''alice''\<rparr>, [])"
    by (rule read_sample_bare)
next
  assume "list_all isspace buf"
  then show "config_line e buf a = Inr (a, [])" by (rule config_line_blank)
next
  assume "take 1 (dropWhile isspace buf) = ''#''"
  then show "config_line e buf a = Inr (a, [])" by (rule config_line_comment)
next
  assume h: "list_all isspace w1 \<and> list_all isspace w2 \<and> list_all isspace w3 \<and>
    list_all isspace w4 \<and> trimmed k \<and> CHR ''='' \<notin> set k \<and> trimmed v"
  then have "fst (strtrim_buf (w1 @ k @ w2 @ ''='' @ w3 @ v @ w4)) =
        (if k = [] then [] else k @ w2) @ ''='' @ (if v = [] then [] else w3 @ v)"
    by (intro trim_line) simp_all
  moreover from h
  have "key_value ((if k = [] then [] else k @ w2) @ ''='' @ (if v = [] then [] else w3 @ v))
        = (k, Some v)"
    by (intro key_value_line) simp_all
  ultimately show "key_value (fst (strtrim_buf (w1 @ k @ w2 @ ''='' @ w3 @ v @ w4))) = (k, Some v)"
    by simp
  from h show "config_line e (w1 @ k @ w2 @ ''='' @ w3 @ v @ w4) a = config_line e (k @ ''='' @ v) a"
    by (intro config_line_surrounding_space) simp_all
qed

theorem config_file_line_trimming_witness:
  "read_lines (sample_env (Inl ENOENT) 0 0)
     ([CHR '' '', CHR 0x09] @ CHR 0x0A # ''  # User = carol'' @ CHR 0x0A #
      ''  User = alice  '' @ CHR 0x0A # []) initial_args [] =
     Inr (initial_args\<lparr>arg_username := Some ''alice''\<rparr>, []) \<and>
   read_lines (sample_env (Inl ENOENT) 0 0) (''  Password =  secret '' @ CHR 0x0A # [])
     initial_args [] =
   read_lines (sample_env (Inl ENOENT) 0 0) (''Password=secret'' @ CHR 0x0A # []) initial_args [] \<and>
   key_value (fst (strtrim_buf ''  Password =  secret \<newline>'')) = (''Password'', Some ''secret'')"
proof -
  let ?e = "sample_env (Inl ENOENT) 0 0"
  let ?rest2 = "''  # User = carol'' @ CHR 0x0A # ''  User = alice  '' @ CHR 0x0A # []"
  let ?rest3 = "''  User = alice  '' @ CHR 0x0A # []"
  let ?l = "''  '' @ ''Password'' @ '' '' @ ''='' @ ''  '' @ ''secret'' @ '' ''"
  have blank: "fits_buffer [CHR '' '', CHR 0x09] \<and> list_all isspace [CHR '' '', CHR 0x09]"
    by (simp add: fits_buffer_def BUFSIZ_def isspace_def)
  have comment: "fits_buffer ''  # User = carol'' \<and>
      take 1 (dropWhile isspace ''  # User = carol'') = ''#''"
    by (simp add: fits_buffer_def BUFSIZ_def isspace_def)
  have alloc: "alloc_ok ?e ''alice''" by (simp add: sample_env_def)
  have parts: "fits_buffer ?l \<and>
    list_all isspace ''  '' \<and> list_all isspace '' '' \<and> list_all isspace ''  '' \<and>
    list_all isspace '' '' \<and> trimmed ''Password'' \<and> CHR ''='' \<notin> set ''Password'' \<and>
    CHR 0x00 \<notin> set ''Password'' \<and> trimmed ''secret'' \<and> CHR 0x00 \<notin> set ''secret''"
    by (simp add: fits_buffer_def BUFSIZ_def isspace_def trimmed_def)
  from config_file_line_trimming
    [where l = "[CHR '' '', CHR 0x09]" and e = ?e and rest = ?rest2 and a = initial_args
       and out = "[]"] blank
  have 1: "read_lines ?e ([CHR '' '', CHR 0x09] @ CHR 0x0A # ?rest2) initial_args [] =
           read_lines ?e ?rest2 initial_args []"
    by blast
  from config_file_line_trimming
    [where l = "''  # User = carol''" and e = ?e and rest = ?rest3 and a = initial_args
       and out = "[]"] comment
  have 2: "read_lines ?e ?rest2 initial_args [] = read_lines ?e ?rest3 initial_args []"
    by blast
  from config_file_line_trimming [where e = ?e and rest = "[]" and a = initial_args and out = "[]"]
    alloc
  have 3: "read_lines ?e ?rest3 initial_args [] =
           read_lines ?e [] (initial_args\<lparr>arg_username := Some ''alice''\<rparr>) []"
    by blast
  have 4: "read_lines ?e [] (initial_args\<lparr>arg_username := Some ''alice''\<rparr>) [] =
           Inr (initial_args\<lparr>arg_username := Some ''alice''\<rparr>, [])"
    by (simp add: read_lines.simps fgets_def)
  note kv = config_file_line_trimming
    [where e = ?e and rest = "[]" and a = initial_args and out = "[]"
       and ?w1.0 = "''  ''" and k = "''Password''" and ?w2.0 = "'' ''" and ?w3.0 = "''  ''"
       and v = "''secret''" and ?w4.0 = "'' ''"]
  from kv parts have 5:
    "read_lines ?e (?l @ CHR 0x0A # []) initial_args [] =
     read_lines ?e ((''Password'' @ ''='' @ ''secret'') @ CHR 0x0A # []) initial_args []"
    by blast
  from kv parts have 6:
    "key_value (fst (strtrim_buf
       (''  '' @ ''Password'' @ '' '' @ ''='' @ ''  '' @ ''secret'' @ '' '' @ [CHR 0x0A]))) =
     (''Password'', Some ''secret'')"
    by blast
  from 1 2 3 4 have "read_lines ?e ([CHR '' '', CHR 0x09] @ CHR 0x0A # ?rest2) initial_args [] =
      Inr (initial_args\<lparr>arg_username := Some ''alice''\<rparr>, [])"
    by simp
  with 5 6 show ?thesis by simp
qed

text \<open>
  A line that does not fit the buffer is read in pieces, and each piece is handled as a
  line. The file here is one comment line of 8199 bytes: \<open>#\<close>, 8190 times \<open>x\<close> and
  \<open>User=bob\<close>, then the newline. The first 8191 bytes are ignored as a comment; the rest,
  \<open>User=bob\<close>, sets the user name.
\<close>

theorem comment_line_longer_than_buffer:
  "take 1 (dropWhile isspace (CHR ''#'' # replicate 8190 CHR ''x'' @ ''User=bob'')) = ''#'' \<and>
   CHR 0x0A \<notin> set (CHR ''#'' # replicate 8190 CHR ''x'' @ ''User=bob'') \<and>
   read_config_file
     (sample_env (Inr (CHR ''#'' # replicate 8190 CHR ''x'' @ ''User=bob\<newline>'')) 0 0)
     initial_args =
   Inr (0, initial_args\<lparr>arg_username := Some ''bob''\<rparr>, [])"
proof -
  let ?e = "sample_env (Inr (CHR ''#'' # replicate 8190 CHR ''x'' @ ''User=bob\<newline>'')) 0 0"
  let ?first = "CHR ''#'' # replicate 8190 CHR ''x''"
  have hash: "\<not> isspace CHR ''#''" by (simp add: isspace_def)
  then have start: "take 1 (dropWhile isspace (?first @ ''User=bob'')) = ''#''" by simp
  have nonl: "CHR 0x0A \<notin> set (?first @ ''User=bob'')" by simp
  have "take 1 (dropWhile isspace ?first) = ''#''" using hash by simp
  then have skipped: "config_line ?e ?first initial_args = Inr (initial_args, [])"
    by (rule config_line_comment)
  have "read_lines ?e (?first @ ''User=bob\<newline>'') initial_args [] =
          (case config_line ?e ?first initial_args of
             Inl f \<Rightarrow> Inl f
           | Inr (a', out') \<Rightarrow> read_lines ?e ''User=bob\<newline>'' a' ([] @ out'))"
    by (rule read_lines_full_buffer) (simp_all add: BUFSIZ_def)
  also have "\<dots> = read_lines ?e ''User=bob\<newline>'' initial_args []"
    by (simp add: skipped)
  also have "\<dots> = Inr (initial_args\<lparr>arg_username := Some ''bob''\<rparr>, [])"
    by (simp add: read_lines.simps fgets_def BUFSIZ_def config_line_def strtrim_buf_def
          key_value_def strsep_def streq_def strdup_def isspace_def Let_def sample_env_def)
  finally have "read_config_file ?e initial_args =
      Inr (0, initial_args\<lparr>arg_username := Some ''bob''\<rparr>, [])"
    by (simp add: read_config_file_def find_config_file_def sample_env_def)
  with start nonl show ?thesis by simp
qed

section \<open>The effective parameters\<close>

lemma given_opts_Cons:
  "given_opts ((opt, optarg) # rest) =
     (if 0 \<le> opt \<and> opt \<noteq> of_char CHR ''h'' then (opt, optarg) # given_opts rest else [])"
  by (simp add: given_opts_def)

lemma cli_value_Cons:
  "cli_value x ((opt, optarg) # rest) =
     (if 0 \<le> opt \<and> opt \<noteq> of_char CHR ''h''
      then (case cli_value x rest of Some v \<Rightarrow> Some v
            | None \<Rightarrow> if x = opt then Some optarg else None)
      else None)"
  by (simp add: cli_value_def given_opts_Cons map_add_def split: option.splits)

lemma cli_value_Nil: "cli_value x [] = None"
  by (simp add: cli_value_def given_opts_def)

text \<open>Whatever \<open>parseargs\<close> was given, when it returns without error each parameter is the
  last value among the options it read (those before the end of the options and before
  the first help flag), or else what it was before.\<close>

lemma parseargs_loop_fields:
  assumes "parseargs_loop e opts a n = (rc, a', out, m)" and "0 \<le> rc"
  shows "arg_username a' =
           (case cli_value (of_char CHR ''u'') opts of Some v \<Rightarrow> Some v | None \<Rightarrow> arg_username a) \<and>
         arg_password a' =
           (case cli_value (of_char CHR ''p'') opts of Some v \<Rightarrow> Some v | None \<Rightarrow> arg_password a) \<and>
         arg_cookiefile a' =
           (case cli_value (of_char CHR ''C'') opts of Some v \<Rightarrow> Some v | None \<Rightarrow> arg_cookiefile a) \<and>
         arg_persist_cookies a' =
           (of_char CHR ''k'' \<in> fst ` set (given_opts opts) \<or> arg_persist_cookies a) \<and>
         arg_domain a' = (case cli_value 128 opts of Some v \<Rightarrow> v | None \<Rightarrow> arg_domain a) \<and>
         arg_category a' =
           (case cli_value (of_char CHR ''c'') opts of Some v \<Rightarrow> category_validate v
            | None \<Rightarrow> arg_category a)"
  using assms
proof (induction opts arbitrary: a n)
  case Nil
  then show ?case by (simp add: cli_value_Nil given_opts_def)
next
  case (Cons p rest)
  obtain opt optarg where p: "p = (opt, optarg)" by (cases p)
  show ?case
  proof (cases "opt < 0 \<or> opt = of_char CHR ''h''")
    case True
    with Cons.prems p show ?thesis by (auto simp: cli_value_Cons given_opts_Cons)
  next
    case False
    then have nonneg: "0 \<le> opt" and noh: "opt \<noteq> of_char CHR ''h''" by simp_all
    from Cons.prems(1,2) p nonneg noh obtain a1 where
      step: "parseargs_loop e rest a1 (Suc n) = (rc, a', out, m)"
      and a1: "a1 =
        (if opt = of_char CHR ''C'' then a\<lparr>arg_cookiefile := Some optarg\<rparr>
         else if opt = of_char CHR ''c'' then a\<lparr>arg_category := category_validate optarg\<rparr>
         else if opt = of_char CHR ''k'' then a\<lparr>arg_persist_cookies := True\<rparr>
         else if opt = of_char CHR ''p'' then a\<lparr>arg_password := Some optarg\<rparr>
         else if opt = of_char CHR ''u'' then a\<lparr>arg_username := Some optarg\<rparr>
         else a\<lparr>arg_domain := optarg\<rparr>)"
      and known: "opt \<in> {of_char CHR ''C'', of_char CHR ''c'', of_char CHR ''k'', of_char CHR ''p'',
                       of_char CHR ''u'', 128}"
      by (auto simp: Let_def EINVAL_def split: if_splits)
    note IH = Cons.IH [OF step Cons.prems(2)]
    from known show ?thesis
      unfolding p using IH nonneg noh
      by (auto simp: a1 cli_value_Cons given_opts_Cons split: option.splits)
  qed
qed

lemma config_line_keeps:
  "config_line e buf a = Inr (a', out) \<Longrightarrow>
     arg_domain a' = arg_domain a \<and> arg_category a' = arg_category a"
  by (auto simp: config_line_def Let_def split: prod.splits if_splits sum.splits option.splits)

lemma read_lines_keeps:
  "read_lines e fp a out = Inr (a', out') \<Longrightarrow>
     arg_domain a' = arg_domain a \<and> arg_category a' = arg_category a"
proof (induction e fp a out rule: read_lines.induct)
  case (1 e fp a out)
  show ?case
  proof (cases "fgets BUFSIZ fp")
    case None
    with "1.prems" show ?thesis by (simp add: read_lines.simps)
  next
    case (Some lf)
    obtain line fp' where lf: "lf = (line, fp')" by (cases lf)
    from "1.prems"(1) Some lf obtain a1 out1 where
      cl: "config_line e line a = Inr (a1, out1)"
      and rest: "read_lines e fp' a1 (out @ out1) = Inr (a', out')"
      by (subst (asm) read_lines.simps) (auto split: sum.splits)
    from "1.IH" [OF Some lf [symmetric] cl refl rest] config_line_keeps [OF cl]
    show ?thesis by simp
  qed
qed

lemma read_config_file_keeps:
  "read_config_file e a = Inr (rc, a', out) \<Longrightarrow>
     arg_domain a' = arg_domain a \<and> arg_category a' = arg_category a"
  by (auto simp: read_config_file_def split: prod.splits option.splits sum.splits if_splits
        dest: read_lines_keeps)

lemma default_category_not_in_catalog: "Some ''1'' \<notin> cat_id ` set categories"
  by (simp add: categories_def)

text \<open>What a line \<open>key=value\<close> of the file does, for each of the four keys.\<close>

lemma config_line_of_key:
  assumes "trimmed k" and "CHR ''='' \<notin> set k" and "k \<noteq> []" and "take 1 k \<noteq> ''#''"
    and "trimmed v"
  shows "strtrim_buf (k @ ''='' @ v) = (k @ ''='' @ v, length (k @ ''='' @ v)) \<and>
         key_value (k @ ''='' @ v) = (k, Some v)"
proof -
  have "fst (strtrim_buf ([] @ k @ [] @ ''='' @ [] @ v @ [])) =
          (if k = [] then [] else k @ []) @ ''='' @ (if v = [] then [] else [] @ v)"
    using assms(1,5) by (intro trim_line) simp_all
  then have fst: "fst (strtrim_buf (k @ ''='' @ v)) = k @ ''='' @ v"
    using assms(3) by (cases "v = []") simp_all
  with strtrim_buf_snd [of "k @ ''='' @ v"]
  have "strtrim_buf (k @ ''='' @ v) = (k @ ''='' @ v, length (k @ ''='' @ v))"
    by (simp add: prod_eq_iff)
  moreover
  have "key_value ((if k = [] then [] else k @ []) @ ''='' @ (if v = [] then [] else [] @ v))
          = (k, Some v)"
    using assms(1,2,5) by (intro key_value_line) simp_all
  then have "key_value (k @ ''='' @ v) = (k, Some v)"
    using assms(3) by (cases "v = []") simp_all
  ultimately show ?thesis by simp
qed

lemma config_line_user:
  assumes "trimmed v"
  shows "config_line e (''User='' @ v) a =
           (if alloc_ok e v then Inr (a\<lparr>arg_username := Some v\<rparr>, [])
            else Inr (a, [Stderr ''error: failed to allocate memory\<newline>'']))"
proof -
  have "trimmed ''User''" by (simp add: trimmed_def isspace_def)
  from config_line_of_key [OF this _ _ _ assms]
  have "strtrim_buf (''User'' @ ''='' @ v) = (''User'' @ ''='' @ v, length (''User'' @ ''='' @ v))"
    and "key_value (''User'' @ ''='' @ v) = (''User'', Some v)"
    by simp_all
  then show ?thesis
    by (simp add: config_line_def streq_def strdup_def)
qed

lemma config_line_password:
  assumes "trimmed v"
  shows "config_line e (''Password='' @ v) a =
           (if alloc_ok e v then Inr (a\<lparr>arg_password := Some v\<rparr>, [])
            else Inr (a, [Stderr ''error: failed to allocate memory\<newline>'']))"
proof -
  have "trimmed ''Password''" by (simp add: trimmed_def isspace_def)
  from config_line_of_key [OF this _ _ _ assms]
  have "strtrim_buf (''Password'' @ ''='' @ v) =
          (''Password'' @ ''='' @ v, length (''Password'' @ ''='' @ v))"
    and "key_value (''Password'' @ ''='' @ v) = (''Password'', Some v)"
    by simp_all
  then show ?thesis
    by (simp add: config_line_def streq_def strdup_def)
qed

lemma config_line_cookies:
  assumes "trimmed v"
  shows "config_line e (''Cookies='' @ v) a =
           (case shell_expand e (Some v) of
              Inl f \<Rightarrow> Inl f
            | Inr None \<Rightarrow> Inr (a, [Stderr ''error: failed to allocate memory\<newline>''])
            | Inr (Some c) \<Rightarrow> Inr (a\<lparr>arg_cookiefile := Some c\<rparr>, []))"
proof -
  have "trimmed ''Cookies''" by (simp add: trimmed_def isspace_def)
  from config_line_of_key [OF this _ _ _ assms]
  have "strtrim_buf (''Cookies'' @ ''='' @ v) =
          (''Cookies'' @ ''='' @ v, length (''Cookies'' @ ''='' @ v))"
    and "key_value (''Cookies'' @ ''='' @ v) = (''Cookies'', Some v)"
    by simp_all
  then show ?thesis
    by (simp add: config_line_def streq_def)
qed

lemma config_line_persist:
  "config_line e ''Persist'' a = Inr (a\<lparr>arg_persist_cookies := True\<rparr>, [])"
  by (simp add: config_line_def strtrim_buf_def key_value_def strsep_def streq_def isspace_def
        Let_def)

text \<open>
  The precedence of the command line over the configuration file, for every run in which
  \<open>parseargs\<close> returns without error. Let the configuration file have been read into the parameters \<open>a1\<close>. Then the user
  name, the password and the cookie file are the last value among the options read if
  there is one, and the value from the configuration file otherwise; the persist flag is
  set when an option read or the configuration file sets it; the domain is the last one
  among the options read, else \<open>aur.archlinux.org\<close>; the category is the validated id of the
  last name among the options read, else \<open>1\<close>, which is the id of no entry of the table.
  Before the file is read the user name, the password and the cookie file are \<open>NULL\<close> and
  the persist flag is false, and they stay so when there is no file. These parameters are
  the ones \<open>main\<close> goes on with. The options read end at the first help flag.
\<close>

lemma effective_parameters_precedence:
  assumes conf: "read_config_file e initial_args = Inr (rc1, a1, out1)"
    and args: "parseargs e opts a1 = (rc2, a2, out2, n)"
    and ok: "0 \<le> rc2"
  shows "arg_username a2 =
           (case cli_value (of_char CHR ''u'') opts of Some v \<Rightarrow> Some v | None \<Rightarrow> arg_username a1) \<and>
         arg_password a2 =
           (case cli_value (of_char CHR ''p'') opts of Some v \<Rightarrow> Some v | None \<Rightarrow> arg_password a1) \<and>
         arg_cookiefile a2 =
           (case cli_value (of_char CHR ''C'') opts of Some v \<Rightarrow> Some v
            | None \<Rightarrow> arg_cookiefile a1) \<and>
         arg_persist_cookies a2 =
           (of_char CHR ''k'' \<in> fst ` set (given_opts opts) \<or> arg_persist_cookies a1) \<and>
         arg_domain a2 =
           (case cli_value 128 opts of Some v \<Rightarrow> v | None \<Rightarrow> ''aur.archlinux.org'') \<and>
         arg_category a2 =
           (case cli_value (of_char CHR ''c'') opts of Some v \<Rightarrow> category_validate v
            | None \<Rightarrow> Some ''1'') \<and>
         Some ''1'' \<notin> cat_id ` set categories \<and>
         arg_username initial_args = None \<and> arg_password initial_args = None \<and>
         arg_cookiefile initial_args = None \<and> arg_persist_cookies initial_args = False \<and>
         (find_config_file e = (Some path, out) \<and> fopen e path = Inl ENOENT \<longrightarrow>
            a1 = initial_args) \<and>
         (0 \<le> rc1 \<and> getopt_results cmd = opts \<and> 0 \<le> aur_new e (arg_domain a2) True \<longrightarrow>
            main e cmd =
              Inr (main_session e (arg_category a2) (operands cmd n)
                     (out1 @ out2 @
                      Aur_new (arg_domain a2) True (aur_new e (arg_domain a2) True) #
                      main_setters a2)))"
proof -
  from args have loop: "parseargs_loop e opts a1 0 = (rc2, a2, out2, n)"
    by (simp add: parseargs_def)
  note fields = parseargs_loop_fields [OF loop ok]
  from read_config_file_keeps [OF conf]
  have kept: "arg_domain a1 = ''aur.archlinux.org''" "arg_category a1 = Some ''1''"
    by (simp_all add: initial_args_def)
  have missing: "find_config_file e = (Some path, out) \<and> fopen e path = Inl ENOENT \<longrightarrow>
            a1 = initial_args"
    using conf by (auto simp: read_config_file_def)
  have run: "0 \<le> rc1 \<and> getopt_results cmd = opts \<and> 0 \<le> aur_new e (arg_domain a2) True \<longrightarrow>
            main e cmd =
              Inr (main_session e (arg_category a2) (operands cmd n)
                     (out1 @ out2 @
                      Aur_new (arg_domain a2) True (aur_new e (arg_domain a2) True) #
                      main_setters a2))"
    using conf args ok by (auto simp: main_def Let_def)
  have defaults: "arg_username initial_args = None \<and> arg_password initial_args = None \<and>
         arg_cookiefile initial_args = None \<and> arg_persist_cookies initial_args = False"
    by (simp add: initial_args_def)
  from fields [unfolded kept] default_category_not_in_catalog defaults missing run
  show ?thesis by blast
qed

lemmas eval_config =
  read_config_file_def find_config_file_def read_lines.simps fgets_def BUFSIZ_def
  config_line_def strtrim_buf_def key_value_def strsep_def streq_def strdup_def shell_expand_def
  isspace_def Let_def

lemmas eval_main =
  main_def parseargs_def main_session_def main_upload_def main_setters_def initial_args_def
  sample_env_def EXIT_SUCCESS_def

text \<open>
  C5 (the code departs from the claim). \<open>parseargs\<close> returns 0 at the help flag without
  reading what follows, and \<open>main\<close>, which stops only on a negative return, goes on. With
  \<open>User = alice\<close> in the file and \<open>-h -u bob\<close> on the command line both sources give a user
  name, and the client is given \<open>alice\<close>, the one from the file; \<open>-u\<close> and \<open>bob\<close>, which
  \<open>getopt_long\<close> has not passed, are uploaded as targets. Without the help flag the same
  command line gives the client \<open>bob\<close>, next to the password, the cookie file and the
  persist flag that only the file provides.
\<close>

theorem help_flag_lets_main_go_on:
  "parseargs_loop e ((of_char CHR ''h'', optarg) # rest) a n = (0, a, usage e, Suc n) \<and>
   read_config_file (sample_env (Inr ''User = alice\<newline>'') 0 0) initial_args =
     Inr (0, initial_args\<lparr>arg_username := Some ''alice''\<rparr>, []) \<and>
   main (sample_env (Inr ''User = alice\<newline>'') 0 0)
     \<lparr>getopt_results = [(of_char CHR ''h'', []), (of_char CHR ''u'', ''bob'')],
      operands = (\<lambda>n. if n = 1 then [''-u'', ''bob''] else [])\<rparr> =
   Inr (EXIT_SUCCESS,
        usage (sample_env (Inr ''User = alice\<newline>'') 0 0) @
        [Aur_new ''aur.archlinux.org'' True 0, Aur_set_username ''alice'',
         Aur_login False 0,
         Aur_upload ''-u'' (Some ''1'') 0 None, Stdout ''success: uploaded -u\<newline>'',
         Aur_upload ''bob'' (Some ''1'') 0 None, Stdout ''success: uploaded bob\<newline>'',
         Aur_free]) \<and>
   main (sample_env
          (Inr ''User = alice\<newline>Password = secret\<newline>Cookies = /tmp/jar\<newline>Persist\<newline>'') 0 0)
     \<lparr>getopt_results = [(of_char CHR ''u'', ''bob'')], operands = (\<lambda>n. [])\<rparr> =
   Inr (EXIT_SUCCESS,
        [Aur_new ''aur.archlinux.org'' True 0, Aur_set_username ''bob'',
         Aur_set_password ''secret'', Aur_set_cookies ''/tmp/jar'',
         Aur_set_persist_cookies True, Aur_login False 0, Aur_free])"
proof (intro conjI)
  show "parseargs_loop e ((of_char CHR ''h'', optarg) # rest) a n = (0, a, usage e, Suc n)"
    by simp
  show "read_config_file (sample_env (Inr ''User = alice\<newline>'') 0 0) initial_args =
     Inr (0, initial_args\<lparr>arg_username := Some ''alice''\<rparr>, [])"
    by (simp add: eval_config sample_env_def)
  show "main (sample_env (Inr ''User = alice\<newline>'') 0 0)
     \<lparr>getopt_results = [(of_char CHR ''h'', []), (of_char CHR ''u'', ''bob'')],
      operands = (\<lambda>n. if n = 1 then [''-u'', ''bob''] else [])\<rparr> =
   Inr (EXIT_SUCCESS,
        usage (sample_env (Inr ''User = alice\<newline>'') 0 0) @
        [Aur_new ''aur.archlinux.org'' True 0, Aur_set_username ''alice'',
         Aur_login False 0,
         Aur_upload ''-u'' (Some ''1'') 0 None, Stdout ''success: uploaded -u\<newline>'',
         Aur_upload ''bob'' (Some ''1'') 0 None, Stdout ''success: uploaded bob\<newline>'',
         Aur_free])"
    by (simp add: eval_config eval_main)
  show "main (sample_env
          (Inr ''User = alice\<newline>Password = secret\<newline>Cookies = /tmp/jar\<newline>Persist\<newline>'') 0 0)
     \<lparr>getopt_results = [(of_char CHR ''u'', ''bob'')], operands = (\<lambda>n. [])\<rparr> =
   Inr (EXIT_SUCCESS,
        [Aur_new ''aur.archlinux.org'' True 0, Aur_set_username ''bob'',
         Aur_set_password ''secret'', Aur_set_cookies ''/tmp/jar'',
         Aur_set_persist_cookies True, Aur_login False 0, Aur_free])"
    by (simp add: eval_config eval_main)
qed

text \<open>The precedence at work: the file gives a user name and a password, the command line
  a user name, a category, and after them the help flag and a domain that is not read.\<close>

lemma effective_parameters_example:
  "main (sample_env (Inr ''User = alice\<newline>Password = secret\<newline>'') 0 0)
     \<lparr>getopt_results = [(of_char CHR ''u'', ''bob''), (of_char CHR ''c'', ''devel''),
                        (of_char CHR ''h'', []), (128, ''example.org'')],
      operands = (\<lambda>n. [''a''])\<rparr> =
   Inr (EXIT_SUCCESS,
        usage (sample_env (Inr ''User = alice\<newline>Password = secret\<newline>'') 0 0) @
        [Aur_new ''aur.archlinux.org'' True 0, Aur_set_username ''bob'',
         Aur_set_password ''secret'', Aur_login False 0,
         Aur_upload ''a'' (Some ''3'') 0 None, Stdout ''success: uploaded a\<newline>'', Aur_free])"
proof -
  let ?e = "sample_env (Inr ''User = alice\<newline>Password = secret\<newline>'') 0 0"
  let ?opts = "[(of_char CHR ''u'', ''bob''), (of_char CHR ''c'', ''devel''),
                (of_char CHR ''h'', []), (128, ''example.org'')]"
  let ?cmd = "\<lparr>getopt_results = ?opts, operands = (\<lambda>n. [''a''])\<rparr>"
  let ?a1 = "initial_args\<lparr>arg_username := Some ''alice'', arg_password := Some ''secret''\<rparr>"
  let ?a2 = "?a1\<lparr>arg_username := Some ''bob'', arg_category := Some ''3''\<rparr>"
  have conf: "read_config_file ?e initial_args = Inr (0, ?a1, [])"
    by (simp add: eval_config sample_env_def)
  have devel: "category_validate ''devel'' = Some ''3''"
    by (simp add: validate_eq_find catalog_lookup_def categories_def)
  have args: "parseargs ?e ?opts ?a1 = (0, ?a2, usage ?e, 3)"
    by (simp add: parseargs_def devel Let_def)
  have ok: "(0::int) \<le> 0 \<and> getopt_results ?cmd = ?opts \<and> 0 \<le> aur_new ?e (arg_domain ?a2) True"
    by (simp add: sample_env_def)
  from effective_parameters_precedence [OF conf args, of "[]" "[]" ?cmd] ok
  have "main ?e ?cmd =
          Inr (main_session ?e (arg_category ?a2) (operands ?cmd 3)
                 ([] @ usage ?e @
                  Aur_new (arg_domain ?a2) True (aur_new ?e (arg_domain ?a2) True) #
                  main_setters ?a2))"
    by simp
  then show ?thesis
    by (simp add: main_session_def main_upload_def main_setters_def initial_args_def
          sample_env_def EXIT_SUCCESS_def)
qed

section \<open>The configuration file: missing, unreadable, malformed\<close>

lemma usage_fopen: "usage (e\<lparr>fopen := f\<rparr>) = usage e"
  by (simp add: usage_def)

lemma parseargs_loop_fopen:
  "parseargs_loop (e\<lparr>fopen := f\<rparr>) opts a n = parseargs_loop e opts a n"
  by (induction opts arbitrary: a n) (auto simp: usage_fopen Let_def)

lemma upload_loop_fopen:
  "upload_loop (e\<lparr>fopen := f\<rparr>) category targets r tr = upload_loop e category targets r tr"
proof (induction targets arbitrary: r tr)
  case Nil
  show ?case by simp
next
  case (Cons target targets)
  obtain k err where "aur_upload e tr target category = (k, err)"
    by (cases "aur_upload e tr target category")
  then show ?case
    by (simp add: Cons.IH Let_def cong: option.case_cong)
qed

lemma main_upload_fopen:
  "main_upload (e\<lparr>fopen := f\<rparr>) category targets r tr = main_upload e category targets r tr"
  by (simp add: main_upload_def upload_loop_fopen)

lemma login_fallback_fopen: "login_fallback (e\<lparr>fopen := f\<rparr>) r tr = login_fallback e r tr"
  by (simp add: login_fallback_def)

lemma make_login_error_fopen: "make_login_error (e\<lparr>fopen := f\<rparr>) err = make_login_error e err"
  by (simp add: make_login_error_def)

lemma main_session_fopen:
  "main_session (e\<lparr>fopen := f\<rparr>) category targets tr = main_session e category targets tr"
  by (simp add: main_session_def main_upload_fopen login_fallback_fopen make_login_error_fopen
        cong: if_cong)

lemma read_config_file_missing:
  assumes "find_config_file e = (Some path, out)" and "fopen e path = Inl ENOENT"
  shows "read_config_file e a = Inr (0, a, out)"
  using assms by (simp add: read_config_file_def)

lemma read_config_file_empty:
  assumes "find_config_file e = (Some path, out)"
  shows "read_config_file (e\<lparr>fopen := \<lambda>p. Inr []\<rparr>) a = Inr (0, a, out)"
proof -
  have "find_config_file (e\<lparr>fopen := \<lambda>p. Inr []\<rparr>) = find_config_file e"
    by (simp add: find_config_file_def cong: option.case_cong)
  with assms show ?thesis
    by (simp add: read_config_file_def read_lines.simps fgets_def)
qed

lemma main_missing_as_empty:
  assumes "find_config_file e = (Some path, out)" and "fopen e path = Inl ENOENT"
  shows "main e cmd = main (e\<lparr>fopen := \<lambda>p. Inr []\<rparr>) cmd"
proof -
  obtain rc2 a2 out2 n where
    "parseargs_loop e (getopt_results cmd) initial_args 0 = (rc2, a2, out2, n)"
    by (cases "parseargs_loop e (getopt_results cmd) initial_args 0") auto
  then show ?thesis
    by (simp add: main_def read_config_file_missing [OF assms]
          read_config_file_empty [OF assms(1)] parseargs_def parseargs_loop_fopen
          main_session_fopen Let_def)
qed

lemma read_config_file_unreadable:
  assumes "find_config_file e = (Some path, out)" and "fopen e path = Inl errno"
    and "errno \<noteq> ENOENT"
  shows "read_config_file e a =
           Inr (- errno, a,
                out @ [Stderr (''error: failed to open '' @ path @ '': '' @ strerror e errno @
                               ''\<newline>'')])"
  using assms by (simp add: read_config_file_def)

lemma main_after_missing_file:
  assumes "find_config_file e = (Some path, out)" and "fopen e path = Inl ENOENT"
    and "parseargs e (getopt_results cmd) initial_args = (rc2, a2, out2, n)" and "0 \<le> rc2"
    and "aur_new e (arg_domain a2) True = r" and "0 \<le> r"
  shows "main e cmd =
           Inr (main_session e (arg_category a2) (operands cmd n)
                  (out @ out2 @ Aur_new (arg_domain a2) True r # main_setters a2))"
  using assms(3-6) by (simp add: main_def read_config_file_missing [OF assms(1,2)])

lemma main_session_starts_with_login:
  "\<exists>rest. snd (main_session e category targets tr) =
            tr @ Aur_login False (aur_login e tr False) # rest"
proof -
  let ?r = "aur_login e tr False"
  let ?tr1 = "tr @ [Aur_login False ?r]"
  have ext: "\<exists>rest. snd (main_upload e category targets r tr') = tr' @ rest" for r tr'
    by (rule main_upload_extends)
  have fb: "\<exists>rest. snd (login_fallback e ?r ?tr1) = ?tr1 @ rest"
    by (simp add: login_fallback_def Let_def)
  then obtain r' more where fb': "login_fallback e ?r ?tr1 = (r', ?tr1 @ more)"
    by (cases "login_fallback e ?r ?tr1") auto
  show ?thesis
  proof (cases "?r < 0")
    case False
    with ext [of ?r ?tr1] show ?thesis by (auto simp: main_session_def Let_def)
  next
    case True
    show ?thesis
    proof (cases "r' < 0")
      case True
      with \<open>?r < 0\<close> fb' show ?thesis
        by (simp add: main_session_def Let_def make_login_error_def)
    next
      case False
      from ext [of r' "?tr1 @ more"] obtain rest where
        "snd (main_upload e category targets r' (?tr1 @ more)) = (?tr1 @ more) @ rest" by blast
      with \<open>?r < 0\<close> False fb' show ?thesis
        by (simp add: main_session_def Let_def)
    qed
  qed
qed

text \<open>
  C6. When \<open>fopen\<close> fails with \<open>ENOENT\<close>, \<open>read_config_file\<close> returns 0 with the parameters
  unchanged and prints nothing, and the whole run is the run with an empty file in its
  place. The run goes on: when the options are parsed without error and the client is
  created, \<open>main\<close> is the session with the parameters that the command line gives to the
  initial ones, so the run has the call of \<open>aur_new\<close>, the setters and the first login; with
  no options the session runs with the defaults. When \<open>fopen\<close> fails with any other
  (positive) \<open>errno\<close>, \<open>read_config_file\<close> prints the error and returns \<open>-errno\<close>, and \<open>main\<close>
  returns \<open>EXIT_FAILURE\<close> at once: the error line is its last event, and no call of the
  client was made.
\<close>

theorem config_file_missing_or_unreadable:
  assumes "find_config_file e = (Some path, out)"
  shows "(fopen e path = Inl ENOENT \<longrightarrow>
            read_config_file e a = Inr (0, a, out) \<and>
            main e cmd = main (e\<lparr>fopen := \<lambda>p. Inr []\<rparr>) cmd \<and>
            (parseargs e (getopt_results cmd) initial_args = (rc2, a2, out2, n) \<and> 0 \<le> rc2 \<and>
             aur_new e (arg_domain a2) True = r \<and> 0 \<le> r \<longrightarrow>
               main e cmd =
                 Inr (main_session e (arg_category a2) (operands cmd n)
                        (out @ out2 @ Aur_new (arg_domain a2) True r # main_setters a2)) \<and>
               (\<exists>status rest. main e cmd =
                  Inr (status,
                       out @ out2 @ Aur_new (arg_domain a2) True r # main_setters a2 @
                       Aur_login False
                         (aur_login e
                            (out @ out2 @ Aur_new (arg_domain a2) True r # main_setters a2)
                            False) # rest))) \<and>
            (getopt_results cmd = [] \<and> aur_new e ''aur.archlinux.org'' True = r \<and> 0 \<le> r \<longrightarrow>
               main e cmd =
                 Inr (main_session e (Some ''1'') (operands cmd 1)
                        (out @ [Aur_new ''aur.archlinux.org'' True r])))) \<and>
         (fopen e path = Inl errno \<and> errno \<noteq> ENOENT \<and> 0 < errno \<longrightarrow>
            read_config_file e a =
              Inr (- errno, a,
                   out @ [Stderr (''error: failed to open '' @ path @ '': '' @
                                  strerror e errno @ ''\<newline>'')]) \<and>
            main e cmd =
              Inr (EXIT_FAILURE,
                   out @ [Stderr (''error: failed to open '' @ path @ '': '' @
                                  strerror e errno @ ''\<newline>'')]) \<and>
            list_all printed
              (out @ [Stderr (''error: failed to open '' @ path @ '': '' @
                              strerror e errno @ ''\<newline>'')]))"
proof (intro conjI impI)
  assume missing: "fopen e path = Inl ENOENT"
  from assms missing show "read_config_file e a = Inr (0, a, out)"
    by (rule read_config_file_missing)
  from assms missing show "main e cmd = main (e\<lparr>fopen := \<lambda>p. Inr []\<rparr>) cmd"
    by (rule main_missing_as_empty)
  {
    assume h: "parseargs e (getopt_results cmd) initial_args = (rc2, a2, out2, n) \<and> 0 \<le> rc2 \<and>
             aur_new e (arg_domain a2) True = r \<and> 0 \<le> r"
    let ?tr = "out @ out2 @ Aur_new (arg_domain a2) True r # main_setters a2"
    from h have p: "parseargs e (getopt_results cmd) initial_args = (rc2, a2, out2, n)"
      "0 \<le> rc2" "aur_new e (arg_domain a2) True = r" "0 \<le> r"
      by blast+
    show run: "main e cmd =
        Inr (main_session e (arg_category a2) (operands cmd n) ?tr)"
      by (rule main_after_missing_file [OF assms missing p])
    from main_session_starts_with_login [of e "arg_category a2" "operands cmd n" ?tr]
    obtain rest where
      "snd (main_session e (arg_category a2) (operands cmd n) ?tr) =
         ?tr @ Aur_login False (aur_login e ?tr False) # rest" by blast
    then have "main_session e (arg_category a2) (operands cmd n) ?tr =
        (fst (main_session e (arg_category a2) (operands cmd n) ?tr),
         ?tr @ Aur_login False (aur_login e ?tr False) # rest)"
      by (simp add: prod_eq_iff)
    with run have "main e cmd =
        Inr (fst (main_session e (arg_category a2) (operands cmd n) ?tr),
             out @ out2 @ Aur_new (arg_domain a2) True r # main_setters a2 @
             Aur_login False (aur_login e ?tr False) # rest)"
      by simp
    then show "\<exists>status rest. main e cmd =
        Inr (status,
             out @ out2 @ Aur_new (arg_domain a2) True r # main_setters a2 @
             Aur_login False (aur_login e ?tr False) # rest)"
      by blast
  }
  {
    assume h: "getopt_results cmd = [] \<and> aur_new e ''aur.archlinux.org'' True = r \<and> 0 \<le> r"
    then have "parseargs e (getopt_results cmd) initial_args = (0, initial_args, [], 1)"
      by (simp add: parseargs_def)
    from main_after_missing_file [OF assms missing this, of r] h
    show "main e cmd =
        Inr (main_session e (Some ''1'') (operands cmd 1)
               (out @ [Aur_new ''aur.archlinux.org'' True r]))"
      by (simp add: initial_args_def main_setters_def)
  }
next
  assume h: "fopen e path = Inl errno \<and> errno \<noteq> ENOENT \<and> 0 < errno"
  let ?msg = "Stderr (''error: failed to open '' @ path @ '': '' @ strerror e errno @ ''\<newline>'')"
  from h show rc: "read_config_file e a = Inr (- errno, a, out @ [?msg])"
    using read_config_file_unreadable [OF assms, of errno a] by simp
  from h have "read_config_file e initial_args = Inr (- errno, initial_args, out @ [?msg])"
    using read_config_file_unreadable [OF assms, of errno initial_args] by simp
  with h show "main e cmd = Inr (EXIT_FAILURE, out @ [?msg])"
    by (simp add: main_def)
  from find_config_file_printed [of e] assms show "list_all printed (out @ [?msg])"
    by simp
qed

theorem config_file_missing_or_unreadable_witness:
  "read_config_file (sample_env (Inl ENOENT) 0 0) initial_args = Inr (0, initial_args, []) \<and>
   main (sample_env (Inl ENOENT) 0 0) \<lparr>getopt_results = [], operands = (\<lambda>n. [''a''])\<rparr> =
     Inr (EXIT_SUCCESS,
          [Aur_new ''aur.archlinux.org'' True 0, Aur_login False 0,
           Aur_upload ''a'' (Some ''1'') 0 None, Stdout ''success: uploaded a\<newline>'', Aur_free]) \<and>
   main (sample_env (Inl EACCES) 0 0) \<lparr>getopt_results = [], operands = (\<lambda>n. [''a''])\<rparr> =
     Inr (EXIT_FAILURE,
          [Stderr ''error: failed to open /home/u/.config/burp/burp.conf: errno\<newline>''])"
proof -
  let ?missing = "sample_env (Inl ENOENT) 0 0"
  let ?denied = "sample_env (Inl EACCES) 0 0"
  let ?path = "''/home/u/.config/burp/burp.conf''"
  let ?cmd = "\<lparr>getopt_results = [], operands = (\<lambda>n. [''a''])\<rparr>"
  have f1: "find_config_file ?missing = (Some ?path, [])"
    and f2: "find_config_file ?denied = (Some ?path, [])"
    by (simp_all add: find_config_file_def sample_env_def)
  have o1: "fopen ?missing ?path = Inl ENOENT"
    and o2: "fopen ?denied ?path = Inl EACCES \<and> EACCES \<noteq> ENOENT \<and> 0 < EACCES"
    by (simp_all add: sample_env_def EACCES_def ENOENT_def)
  have go: "getopt_results ?cmd = [] \<and> aur_new ?missing ''aur.archlinux.org'' True = 0 \<and>
            (0::int) \<le> 0"
    by (simp add: sample_env_def)
  note inst = config_file_missing_or_unreadable [OF f1, where a = initial_args and cmd = ?cmd
    and r = 0]
  from inst o1 have 1: "read_config_file ?missing initial_args = Inr (0, initial_args, [])"
    by blast
  from inst o1 go have "main ?missing ?cmd =
      Inr (main_session ?missing (Some ''1'') (operands ?cmd 1)
             ([] @ [Aur_new ''aur.archlinux.org'' True 0]))"
    by blast
  then have 2: "main ?missing ?cmd =
     Inr (EXIT_SUCCESS,
          [Aur_new ''aur.archlinux.org'' True 0, Aur_login False 0,
           Aur_upload ''a'' (Some ''1'') 0 None, Stdout ''success: uploaded a\<newline>'', Aur_free])"
    by (simp add: main_session_def main_upload_def sample_env_def EXIT_SUCCESS_def)
  from config_file_missing_or_unreadable [OF f2, where errno = EACCES and cmd = ?cmd] o2
  have "main ?denied ?cmd =
     Inr (EXIT_FAILURE,
          [] @ [Stderr (''error: failed to open '' @ ?path @ '': '' @ strerror ?denied EACCES @
                        ''\<newline>'')])"
    by blast
  with 1 2 show ?thesis by (simp add: sample_env_def)
qed

text \<open>
  C10 (the code departs from the claim). A line that is just the key \<open>User\<close>, \<open>Password\<close> or
  \<open>Cookies\<close>, without a \<open>=\<close>, leaves the value \<open>NULL\<close>: \<open>strtrim\<close> checks for that, but the
  value is then passed to \<open>strdup\<close> (to \<open>wordexp\<close> for \<open>Cookies\<close>) as it is. The line is not
  handled: the run stops with a fault, here for a file that holds the one line \<open>User\<close>.
\<close>

theorem key_without_value_faults:
  "config_line e ''User'' a = Inl Null_dereference \<and>
   config_line e ''Password'' a = Inl Null_dereference \<and>
   config_line e ''Cookies'' a = Inl Null_dereference \<and>
   main (sample_env (Inr ''User\<newline>'') login1 login2) cmd = Inl Null_dereference"
  by (simp add: main_def read_config_file_def find_config_file_def sample_env_def
        read_lines.simps fgets_def BUFSIZ_def
        config_line_def strtrim_buf_def key_value_def strsep_def streq_def strdup_def
        shell_expand_def isspace_def Let_def)

end
